theory Spec2Isabelle
  imports Main "HOL-Library.Word" "HOL-Library.Signed_Division"
begin

unbundle bit_operations_syntax

section \<open>Calls to the collaborators, and their outcomes\<close>

text \<open>
  The two drivers (\<^verbatim>\<open>pmw3360.c\<close>, the optical sensor on an SPI bus, and the analog
  joystick driver on two ADC channels) talk to the bus transport, the kernel's timing and
  work queue, and the input subsystem. Every such call is recorded, in program order,
  in a log; a call that returns something records what it returned. The log is the only
  state the drivers share with the outside.
\<close>

type_synonym byte = "8 word"

datatype rel_code = INPUT_REL_X | INPUT_REL_Y

datatype channel = X_ADC | Y_ADC

datatype call =
    SpiWrite "byte list" int
      \<comment> \<open>\<^verbatim>\<open>spi_write\<close> with \<^verbatim>\<open>SPI_HOLD_ON_CS\<close>: the bytes sent, the return code\<close>
  | SpiRead int byte
      \<comment> \<open>\<^verbatim>\<open>spi_read\<close> of one byte with \<^verbatim>\<open>SPI_HOLD_ON_CS\<close>: the return code, the buffer afterwards\<close>
  | SpiRelease
  | BusyWait nat
      \<comment> \<open>\<^verbatim>\<open>k_busy_wait\<close>, microseconds\<close>
  | Sleep nat
      \<comment> \<open>\<^verbatim>\<open>k_msleep\<close> and \<^verbatim>\<open>k_sleep(K_MSEC(..))\<close>, milliseconds\<close>
  | InputReport rel_code "32 word" bool
      \<comment> \<open>a relative event: the axis, the value (\<^verbatim>\<open>int32_t\<close>), the \<^verbatim>\<open>sync\<close> flag.
          \<^verbatim>\<open>sync = false\<close> says that more events of the batch follow.\<close>
  | WorkInit
      \<comment> \<open>\<^verbatim>\<open>k_work_init_delayable\<close>\<close>
  | WorkSchedule nat
      \<comment> \<open>\<^verbatim>\<open>k_work_schedule\<close> after \<^verbatim>\<open>K_MSEC(..)\<close>\<close>
  | AdcSequenceInit channel int
      \<comment> \<open>\<^verbatim>\<open>adc_sequence_init_dt\<close>: the channel, the return code\<close>
  | AdcRead channel int "16 word"
      \<comment> \<open>\<^verbatim>\<open>adc_read\<close>: the channel, the return code, the sample buffer afterwards\<close>

text \<open>
  The collaborators are not part of the drivers. What a call returns may depend on
  everything that happened before it, so each outcome is a function of the log so far.
\<close>

record env =
  spi_is_ready :: bool
  spi_write :: "call list \<Rightarrow> byte list \<Rightarrow> int"
  spi_read :: "call list \<Rightarrow> int \<times> byte"
  adc_sequence_init :: "call list \<Rightarrow> channel \<Rightarrow> int"
  adc_read :: "call list \<Rightarrow> channel \<Rightarrow> int \<times> 16 word"

text \<open>The values of \<^verbatim>\<open>errno.h\<close> the drivers return.\<close>

definition EIO :: int where
  "EIO = 5"

definition ENODEV :: int where
  "ENODEV = 19"

section \<open>The optical sensor: \<^verbatim>\<open>pmw3360.c\<close>\<close>

definition PMW3360_PRODUCT_ID :: byte where
  "PMW3360_PRODUCT_ID = 0x00"

definition PMW3360_REVISION_ID :: byte where
  "PMW3360_REVISION_ID = 0x01"

definition PMW3360_MOTION :: byte where
  "PMW3360_MOTION = 0x02"

definition PMW3360_DELTA_X_L :: byte where
  "PMW3360_DELTA_X_L = 0x03"

definition PMW3360_DELTA_X_H :: byte where
  "PMW3360_DELTA_X_H = 0x04"

definition PMW3360_DELTA_Y_L :: byte where
  "PMW3360_DELTA_Y_L = 0x05"

definition PMW3360_DELTA_Y_H :: byte where
  "PMW3360_DELTA_Y_H = 0x06"

definition PMW3360_CONFIG1 :: byte where
  "PMW3360_CONFIG1 = 0x0F"

definition PMW3360_CONFIG2 :: byte where
  "PMW3360_CONFIG2 = 0x10"

definition PMW3360_POWER_UP_RESET :: byte where
  "PMW3360_POWER_UP_RESET = 0x3A"

record pmw3360_config =
  polling_interval_ms :: "16 word"
  cpi :: "16 word"

text \<open>
  \<^verbatim>\<open>struct pmw3360_data\<close>: \<open>dev\<close> is the back pointer, \<open>None\<close> while it is
  still null (the instance is defined with \<^verbatim>\<open>= {}\<close>).
\<close>

record pmw3360_data =
  dev :: "nat option"

text \<open>
  \<^verbatim>\<open>pmw3360_reg_read\<close>. The third argument is what \<^verbatim>\<open>*val\<close> holds at the call;
  the result is the return code, what \<^verbatim>\<open>*val\<close> holds at the return, and the log.
\<close>

definition pmw3360_reg_read :: "env \<Rightarrow> byte \<Rightarrow> byte \<Rightarrow> call list \<Rightarrow> (int \<times> byte) \<times> call list" where
  "pmw3360_reg_read e reg val lg =
     (let addr = reg AND 0x7F;
          err = spi_write e lg [addr];
          lg1 = lg @ [SpiWrite [addr] err]
      in if err \<noteq> 0 then ((err, val), lg1 @ [SpiRelease])
         else
           let lg2 = lg1 @ [BusyWait 160];
               (err2, data) = spi_read e lg2;
               lg3 = lg2 @ [SpiRead err2 data, SpiRelease, BusyWait 19]
           in ((err2, if err2 = 0 then data else val), lg3))"

definition pmw3360_reg_write :: "env \<Rightarrow> byte \<Rightarrow> byte \<Rightarrow> call list \<Rightarrow> int \<times> call list" where
  "pmw3360_reg_write e reg val lg =
     (let tx = [reg OR 0x80, val];
          err = spi_write e lg tx
      in (err, lg @ [SpiWrite tx err, BusyWait 35, SpiRelease, BusyWait 145]))"

text \<open>
  \<^verbatim>\<open>pmw3360_set_cpi\<close>. The division and the subtraction are done in \<^verbatim>\<open>int\<close>, to
  which the \<^verbatim>\<open>uint16_t\<close> is promoted; the operands are never negative there.
\<close>

definition pmw3360_set_cpi :: "env \<Rightarrow> pmw3360_config \<Rightarrow> call list \<Rightarrow> int \<times> call list" where
  "pmw3360_set_cpi e cfg lg =
     (let c = cpi cfg;
          c = (if c < 100 then 100 else if c > 12000 then 12000 else c);
          reg_val = (ucast ((ucast c :: 32 word) div 100 - 1) :: byte)
      in pmw3360_reg_write e PMW3360_CONFIG1 reg_val lg)"

text \<open>
  \<^verbatim>\<open>pmw3360_read_motion\<close>. \<open>dx\<close> and \<open>dy\<close> are what the two out-parameters hold
  at the call. The \<^verbatim>\<open>||\<close> chain stops at the first read that fails.
\<close>

definition pmw3360_read_motion ::
    "env \<Rightarrow> 16 word \<Rightarrow> 16 word \<Rightarrow> call list \<Rightarrow> (bool \<times> 16 word \<times> 16 word) \<times> call list" where
  "pmw3360_read_motion e dx dy lg =
     (let ((err, motion), lg) = pmw3360_reg_read e PMW3360_MOTION 0 lg
      in if err \<noteq> 0 then ((False, dx, dy), lg)
      else if motion AND 0x80 = 0 then ((False, dx, dy), lg)
      else
        let ((err, xl), lg) = pmw3360_reg_read e PMW3360_DELTA_X_L 0 lg
        in if err \<noteq> 0 then ((False, dx, dy), lg)
        else
          let ((err, xh), lg) = pmw3360_reg_read e PMW3360_DELTA_X_H 0 lg
          in if err \<noteq> 0 then ((False, dx, dy), lg)
          else
            let ((err, yl), lg) = pmw3360_reg_read e PMW3360_DELTA_Y_L 0 lg
            in if err \<noteq> 0 then ((False, dx, dy), lg)
            else
              let ((err, yh), lg) = pmw3360_reg_read e PMW3360_DELTA_Y_H 0 lg
              in if err \<noteq> 0 then ((False, dx, dy), lg)
              else
                ((True,
                  ucast (push_bit 8 (ucast xh :: 32 word) OR ucast xl),
                  ucast (push_bit 8 (ucast yh :: 32 word) OR ucast yl)), lg))"

text \<open>
  \<^verbatim>\<open>pmw3360_work_handler\<close>: one tick. The \<^verbatim>\<open>int16_t\<close> deltas are passed to
  \<^verbatim>\<open>input_report\<close> as \<^verbatim>\<open>int32_t\<close>, so they are sign-extended.
\<close>

definition pmw3360_work_handler :: "env \<Rightarrow> pmw3360_config \<Rightarrow> call list \<Rightarrow> call list" where
  "pmw3360_work_handler e cfg lg =
     (let ((ok, dx, dy), lg) = pmw3360_read_motion e 0 0 lg;
          lg = (if ok \<and> (dx \<noteq> 0 \<or> dy \<noteq> 0)
                then lg @ [InputReport INPUT_REL_X (scast dx) False,
                           InputReport INPUT_REL_Y (scast dy) True]
                else lg)
      in lg @ [WorkSchedule (unat (polling_interval_ms cfg))])"

text \<open>
  \<^verbatim>\<open>pmw3360_init\<close>. The first argument is the device the instance belongs to. The
  result is the return code, the instance data and the log.
\<close>

definition pmw3360_init ::
    "env \<Rightarrow> nat \<Rightarrow> pmw3360_config \<Rightarrow> pmw3360_data \<Rightarrow> call list \<Rightarrow> (int \<times> pmw3360_data) \<times> call list" where
  "pmw3360_init e d cfg data lg =
     (if \<not> spi_is_ready e then ((- ENODEV, data), lg)
      else
        let (err, lg) = pmw3360_reg_write e PMW3360_POWER_UP_RESET 0x5A lg
        in if err \<noteq> 0 then ((- EIO, data), lg)
        else
          let lg = lg @ [Sleep 50];
              ((err, pid), lg) = pmw3360_reg_read e PMW3360_PRODUCT_ID 0 lg
          in if err \<noteq> 0 then ((- EIO, data), lg)
          else
            let ((err, rev), lg) = pmw3360_reg_read e PMW3360_REVISION_ID 0 lg
            in if err \<noteq> 0 then ((- EIO, data), lg)
            else if pid \<noteq> 0x42 \<or> rev \<noteq> 0x01 then ((- ENODEV, data), lg)
            else
              let (_, lg) = pmw3360_reg_write e PMW3360_CONFIG2 0x00 lg;
                  (_, lg) = pmw3360_set_cpi e cfg lg;
                  data = data\<lparr>dev := Some d\<rparr>;
                  lg = lg @ [WorkInit];
                  lg = lg @ [WorkSchedule (unat (polling_interval_ms cfg))]
              in ((0, data), lg))"

section \<open>The analog joystick\<close>

text \<open>
  The joystick driver as it talks to the ADC through \<^verbatim>\<open>adc_dt_spec\<close>. Its arithmetic
  is C's: \<^verbatim>\<open>int16_t\<close> samples, \<^verbatim>\<open>int32_t\<close> centers and deltas, \<^verbatim>\<open>int64_t\<close> sums,
  \<^verbatim>\<open>uint16_t\<close> configuration values. Words carry the bits; \<open>sint\<close> reads a signed one.
  Where C leaves a signed operation undefined (a result that \<^verbatim>\<open>int32_t\<close> does not hold),
  the word operation wraps; the theorems say where they need the result to fit.

  The repository holds a second variant of this driver, which keeps a prepared sequence
  per axis and calls \<^verbatim>\<open>adc_read\<close> alone. It differs in \<^verbatim>\<open>joystick_read_axis\<close> and
  \<^verbatim>\<open>joystick_init\<close> only; calibration, deadzone, scaling, report and tick are the same
  text.
\<close>

record joystick_config =
  poll_interval_ms :: "16 word"
  deadzone :: "16 word"
  scale_divisor :: "16 word"
  invert_x :: bool
  invert_y :: bool

record joystick_data =
  dev :: "nat option"
  center_x :: "32 word"
  center_y :: "32 word"

text \<open>C's \<^verbatim>\<open>/\<close> on signed integers of one width: the quotient is truncated toward zero.\<close>

definition c_sdiv :: "'a::len word \<Rightarrow> 'a word \<Rightarrow> 'a word" where
  "c_sdiv a b = word_of_int (sint a sdiv sint b)"

definition poll_interval_or_default :: "16 word \<Rightarrow> 16 word" where
  "poll_interval_or_default interval_ms = (if interval_ms > 0 then interval_ms else 10)"

text \<open>
  \<^verbatim>\<open>joystick_read_axis\<close>. The third argument is what \<^verbatim>\<open>*out\<close> holds at the call.
  Only a negative return code of the ADC is a failure.
\<close>

definition joystick_read_axis ::
    "env \<Rightarrow> channel \<Rightarrow> 16 word \<Rightarrow> call list \<Rightarrow> (int \<times> 16 word) \<times> call list" where
  "joystick_read_axis e spec out lg =
     (let err = adc_sequence_init e lg spec;
          lg = lg @ [AdcSequenceInit spec err]
      in if err < 0 then ((err, out), lg)
         else
           let (err, buf) = adc_read e lg spec;
               lg = lg @ [AdcRead spec err buf]
           in if err < 0 then ((err, out), lg)
              else ((0, buf), lg))"

text \<open>
  The loop of \<^verbatim>\<open>joystick_calibrate\<close>, from iteration \<open>i\<close> on, with the sums so far.
  It returns the error of the read that failed, or the two sums.
\<close>

function calibrate_loop ::
    "env \<Rightarrow> nat \<Rightarrow> 64 word \<Rightarrow> 64 word \<Rightarrow> call list \<Rightarrow> (int + 64 word \<times> 64 word) \<times> call list" where
  "calibrate_loop e i sum_x sum_y lg =
     (if i < 8 then
        let ((err, raw_x), lg) = joystick_read_axis e X_ADC 0 lg
        in if err < 0 then (Inl err, lg)
           else
             let ((err, raw_y), lg) = joystick_read_axis e Y_ADC 0 lg
             in if err < 0 then (Inl err, lg)
                else calibrate_loop e (i + 1) (sum_x + scast raw_x) (sum_y + scast raw_y)
                       (lg @ [Sleep 2])
      else (Inr (sum_x, sum_y), lg))"
  by pat_completeness auto
termination
  by (relation "measure (\<lambda>(e, i, sum_x, sum_y, lg). 8 - i)") auto

declare calibrate_loop.simps [simp del]

definition joystick_calibrate ::
    "env \<Rightarrow> joystick_data \<Rightarrow> call list \<Rightarrow> (int \<times> joystick_data) \<times> call list" where
  "joystick_calibrate e data lg =
     (case calibrate_loop e 0 0 0 lg of
        (Inl err, lg) \<Rightarrow> ((err, data), lg)
      | (Inr (sum_x, sum_y), lg) \<Rightarrow>
          ((0, data\<lparr>center_x := ucast (c_sdiv sum_x 8), center_y := ucast (c_sdiv sum_y 8)\<rparr>), lg))"

text \<open>
  \<^verbatim>\<open>apply_deadzone\<close>. The \<^verbatim>\<open>uint16_t\<close> threshold is promoted to \<^verbatim>\<open>int\<close>; the
  comparisons are signed.
\<close>

definition apply_deadzone :: "32 word \<Rightarrow> 16 word \<Rightarrow> 32 word" where
  "apply_deadzone v dz =
     (let d = (ucast dz :: 32 word)
      in if 0 <s v then (if v \<le>s d then 0 else v - d)
         else if v <s 0 then (if - v \<le>s d then 0 else v + d)
         else 0)"

definition scale_value :: "32 word \<Rightarrow> 16 word \<Rightarrow> 32 word" where
  "scale_value v divisor =
     (let safe_divisor = (if divisor = 0 then 1 else divisor)
      in c_sdiv v (ucast safe_divisor))"

text \<open>
  \<^verbatim>\<open>(int16_t)CLAMP(v, INT16_MIN, INT16_MAX)\<close>, passed on as \<^verbatim>\<open>int32_t\<close>. Zephyr's
  \<^verbatim>\<open>CLAMP(val, low, high)\<close> is \<^verbatim>\<open>val <= low ? low : MIN(val, high)\<close>.
\<close>

definition clamp_int16 :: "32 word \<Rightarrow> 32 word" where
  "clamp_int16 v =
     scast (ucast (if v \<le>s - 32768 then - 32768 else if v <s 32767 then v else 32767) :: 16 word)"

definition joystick_report :: "32 word \<Rightarrow> 32 word \<Rightarrow> call list \<Rightarrow> call list" where
  "joystick_report dx dy lg =
     (let have_x = (dx \<noteq> 0);
          have_y = (dy \<noteq> 0);
          lg = (if have_x then lg @ [InputReport INPUT_REL_X (clamp_int16 dx) (\<not> have_y)] else lg);
          lg = (if have_y then lg @ [InputReport INPUT_REL_Y (clamp_int16 dy) True] else lg)
      in lg)"

text \<open>\<^verbatim>\<open>joystick_work_cb\<close>: one tick. It reads the instance data and does not change it.\<close>

definition joystick_work_cb :: "env \<Rightarrow> joystick_config \<Rightarrow> joystick_data \<Rightarrow> call list \<Rightarrow> call list" where
  "joystick_work_cb e cfg data lg =
     (let ((err, raw_x), lg) = joystick_read_axis e X_ADC 0 lg
      in if err < 0
         then lg @ [WorkSchedule (unat (poll_interval_or_default (poll_interval_ms cfg)))]
         else
           let ((err, raw_y), lg) = joystick_read_axis e Y_ADC 0 lg
           in if err < 0
              then lg @ [WorkSchedule (unat (poll_interval_or_default (poll_interval_ms cfg)))]
              else
                let dx = scast raw_x - center_x data;
                    dy = scast raw_y - center_y data;
                    dx = scale_value (apply_deadzone dx (deadzone cfg)) (scale_divisor cfg);
                    dy = scale_value (apply_deadzone dy (deadzone cfg)) (scale_divisor cfg);
                    dx = (if invert_x cfg then - dx else dx);
                    dy = (if invert_y cfg then - dy else dy);
                    lg = joystick_report dx dy lg
                in lg @ [WorkSchedule (unat (poll_interval_or_default (poll_interval_ms cfg)))])"

section \<open>What the specification says, for comparison\<close>

text \<open>
  A register read as the specification describes it: the one-byte address frame with the
  top bit cleared, the guard of 160, the read of one byte, the release of the hold, the
  guard of 19. \<open>rc\<close> and \<open>d\<close> are what the read of the byte returned.
\<close>

definition read_transaction :: "byte \<Rightarrow> int \<Rightarrow> byte \<Rightarrow> call list" where
  "read_transaction reg rc d =
     [SpiWrite [reg AND 0x7F] 0, BusyWait 160, SpiRead rc d, SpiRelease, BusyWait 19]"

text \<open>
  A register write as the specification describes it: the two-byte frame (the address with
  the top bit set, then the value), the guard of 35, the release, the guard of 145.
\<close>

definition write_transaction :: "byte \<Rightarrow> byte \<Rightarrow> int \<Rightarrow> call list" where
  "write_transaction reg val rc =
     [SpiWrite [reg OR 0x80, val] rc, BusyWait 35, SpiRelease, BusyWait 145]"

text \<open>The resolution encoding of the specification: clamp to [100, 12000], then \<open>(clamped / 100) - 1\<close>.\<close>

definition cpi_encoding_spec :: "nat \<Rightarrow> nat" where
  "cpi_encoding_spec requested = max 100 (min 12000 requested) div 100 - 1"

text \<open>The deadzone policy of the specification, on the integers.\<close>

definition deadzone_spec :: "int \<Rightarrow> int \<Rightarrow> int" where
  "deadzone_spec v d =
     (if v > 0 then (if v \<le> d then 0 else v - d)
      else if v < 0 then (if - v \<le> d then 0 else v + d)
      else 0)"

text \<open>
  The conditioning of one axis in the specification's order, on the integers: center,
  deadzone, division by the effective divisor (truncating), inversion, clamp.
\<close>

definition sample_tick_axis_spec :: "int \<Rightarrow> int \<Rightarrow> int \<Rightarrow> int \<Rightarrow> bool \<Rightarrow> int" where
  "sample_tick_axis_spec raw center d divisor invert =
     (let centered = raw - center;
          dead = deadzone_spec centered d;
          scaled = dead sdiv (if divisor = 0 then 1 else divisor);
          signed = (if invert then - scaled else scaled)
      in max (- 32768) (min 32767 signed))"

text \<open>
  What \<^verbatim>\<open>joystick_work_cb\<close> computes for one axis between the read and the report;
  the source has the same expression once for x and once for y.
\<close>

definition joystick_axis_delta :: "16 word \<Rightarrow> 32 word \<Rightarrow> 16 word \<Rightarrow> 16 word \<Rightarrow> bool \<Rightarrow> 32 word" where
  "joystick_axis_delta raw center dz divisor invert =
     (let d = scale_value (apply_deadzone (scast raw - center) dz) divisor
      in if invert then - d else d)"

text \<open>One round of the calibration loop in the log: the x sample, the y sample, the delay.\<close>

record pair_sample =
  x_init :: int
  x_rc :: int
  x_raw :: "16 word"
  y_init :: int
  y_rc :: int
  y_raw :: "16 word"

definition pair_calls :: "pair_sample \<Rightarrow> call list" where
  "pair_calls p =
     [AdcSequenceInit X_ADC (x_init p), AdcRead X_ADC (x_rc p) (x_raw p),
      AdcSequenceInit Y_ADC (y_init p), AdcRead Y_ADC (y_rc p) (y_raw p), Sleep 2]"

definition pair_ok :: "pair_sample \<Rightarrow> bool" where
  "pair_ok p = (0 \<le> x_init p \<and> 0 \<le> x_rc p \<and> 0 \<le> y_init p \<and> 0 \<le> y_rc p)"

text \<open>An ADC call that the driver takes as failed: its return code is negative.\<close>

fun adc_failed :: "call \<Rightarrow> bool" where
  "adc_failed (AdcSequenceInit ch rc) = (rc < 0)"
| "adc_failed (AdcRead ch rc v) = (rc < 0)"
| "adc_failed _ = False"

fun is_schedule :: "call \<Rightarrow> bool" where
  "is_schedule (WorkSchedule t) = True"
| "is_schedule _ = False"

fun is_report :: "rel_code \<Rightarrow> call \<Rightarrow> bool" where
  "is_report c (InputReport c' v s) = (c' = c)"
| "is_report c _ = False"

fun is_busy_wait :: "call \<Rightarrow> bool" where
  "is_busy_wait (BusyWait t) = True"
| "is_busy_wait _ = False"

text \<open>
  A log says what the collaborators answered. \<open>honest_log e lg tr\<close> holds when every
  outcome recorded in \<open>tr\<close> is the one that the collaborators \<open>e\<close> give at that point,
  the log before \<open>tr\<close> being \<open>lg\<close>.
\<close>

fun outcome_of_env :: "env \<Rightarrow> call list \<Rightarrow> call \<Rightarrow> bool" where
  "outcome_of_env e lg (SpiWrite tx rc) = (rc = spi_write e lg tx)"
| "outcome_of_env e lg (SpiRead rc d) = ((rc, d) = spi_read e lg)"
| "outcome_of_env e lg (AdcSequenceInit ch rc) = (rc = adc_sequence_init e lg ch)"
| "outcome_of_env e lg (AdcRead ch rc v) = ((rc, v) = adc_read e lg ch)"
| "outcome_of_env e lg c = True"

fun honest_log :: "env \<Rightarrow> call list \<Rightarrow> call list \<Rightarrow> bool" where
  "honest_log e lg [] = True"
| "honest_log e lg (c # cs) = (outcome_of_env e lg c \<and> honest_log e (lg @ [c]) cs)"

text \<open>
  A register read that failed, in the log: the address write failed and the hold was
  released, or the address write succeeded and the read of the byte failed.
\<close>

definition failed_read :: "byte \<Rightarrow> call list \<Rightarrow> bool" where
  "failed_read reg tr =
     (\<exists>rc. rc \<noteq> 0 \<and> (tr = [SpiWrite [reg AND 0x7F] rc, SpiRelease]
                      \<or> (\<exists>d. tr = read_transaction reg rc d)))"

text \<open>
  The round of the calibration loop that failed with the code \<open>ret\<close>, in the log: it
  ends with the first call that failed, and the calls before it in the round succeeded.
\<close>

definition failed_round :: "int \<Rightarrow> call list \<Rightarrow> bool" where
  "failed_round ret part =
     (ret < 0 \<and>
      (part = [AdcSequenceInit X_ADC ret]
       \<or> (\<exists>i v. 0 \<le> i \<and> part = [AdcSequenceInit X_ADC i, AdcRead X_ADC ret v])
       \<or> (\<exists>i r x. 0 \<le> i \<and> 0 \<le> r
              \<and> part = [AdcSequenceInit X_ADC i, AdcRead X_ADC r x, AdcSequenceInit Y_ADC ret])
       \<or> (\<exists>i r x j v. 0 \<le> i \<and> 0 \<le> r \<and> 0 \<le> j
              \<and> part = [AdcSequenceInit X_ADC i, AdcRead X_ADC r x,
                         AdcSequenceInit Y_ADC j, AdcRead Y_ADC ret v])))"

section \<open>Collaborators to run the drivers on\<close>

text \<open>The register the last address frame in the log selected.\<close>

definition last_addr :: "call list \<Rightarrow> byte" where
  "last_addr lg = foldl (\<lambda>a c. case c of SpiWrite (b # bs) rc \<Rightarrow> b | _ \<Rightarrow> a) 0 lg"

text \<open>Register contents given as a table; a register that is not listed holds 0.\<close>

definition regs_of :: "(byte \<times> byte) list \<Rightarrow> byte \<Rightarrow> byte" where
  "regs_of tab r = (case map_of tab r of Some v \<Rightarrow> v | None \<Rightarrow> 0)"

text \<open>The address frames (the writes of one byte) of a log, in order.\<close>

fun address_frames :: "call list \<Rightarrow> byte list" where
  "address_frames [] = []"
| "address_frames (SpiWrite [a] rc # cs) = a # address_frames cs"
| "address_frames (c # cs) = address_frames cs"

text \<open>
  A sensor with the register contents \<open>regs\<close>. A write whose first byte is in \<open>bad\<close>
  fails with \<open>- EIO\<close>; every other transfer succeeds.
\<close>

definition sensor_env :: "(byte \<Rightarrow> byte) \<Rightarrow> byte set \<Rightarrow> env" where
  "sensor_env regs bad =
     \<lparr>spi_is_ready = True,
      spi_write = (\<lambda>lg tx. case tx of b # bs \<Rightarrow> (if b \<in> bad then - EIO else 0) | [] \<Rightarrow> 0),
      spi_read = (\<lambda>lg. (0, regs (last_addr lg))),
      adc_sequence_init = (\<lambda>lg ch. 0),
      adc_read = (\<lambda>lg ch. (0, 0))\<rparr>"

text \<open>A bus on which the read of the byte fails with \<open>- EIO\<close> and leaves \<open>0xEE\<close> in the buffer.\<close>

definition read_fail_env :: env where
  "read_fail_env =
     \<lparr>spi_is_ready = True,
      spi_write = (\<lambda>lg tx. 0),
      spi_read = (\<lambda>lg. (- EIO, 0xEE)),
      adc_sequence_init = (\<lambda>lg ch. 0),
      adc_read = (\<lambda>lg ch. (0, 0))\<rparr>"

definition count_reads :: "channel \<Rightarrow> call list \<Rightarrow> nat" where
  "count_reads ch lg = length (filter (\<lambda>c. case c of AdcRead ch' rc v \<Rightarrow> ch' = ch | _ \<Rightarrow> False) lg)"

text \<open>
  An ADC that answers the successive reads of each channel from a list of outcomes
  (return code, sample), and with \<open>(0, 0)\<close> once the list is used up.
\<close>

definition adc_env :: "(int \<times> 16 word) list \<Rightarrow> (int \<times> 16 word) list \<Rightarrow> env" where
  "adc_env xs ys =
     \<lparr>spi_is_ready = True,
      spi_write = (\<lambda>lg tx. 0),
      spi_read = (\<lambda>lg. (0, 0)),
      adc_sequence_init = (\<lambda>lg ch. 0),
      adc_read = (\<lambda>lg ch.
        let s = (case ch of X_ADC \<Rightarrow> xs | Y_ADC \<Rightarrow> ys); n = count_reads ch lg
        in if n < length s then s ! n else (0, 0))\<rparr>"

section \<open>Register transactions\<close>

lemmas reg_addr_simps = PMW3360_MOTION_def PMW3360_DELTA_X_L_def PMW3360_DELTA_X_H_def
  PMW3360_DELTA_Y_L_def PMW3360_DELTA_Y_H_def PMW3360_PRODUCT_ID_def PMW3360_REVISION_ID_def
  PMW3360_CONFIG1_def PMW3360_CONFIG2_def PMW3360_POWER_UP_RESET_def

lemma reg_read_cases:
  assumes "pmw3360_reg_read e reg val lg = ((err, v), lg')"
  shows "(err \<noteq> 0 \<and> v = val \<and> lg' = lg @ [SpiWrite [reg AND 0x7F] err, SpiRelease]) \<or>
         (\<exists>d. v = (if err = 0 then d else val) \<and> lg' = lg @ read_transaction reg err d)"
  using assms
  by (auto simp: pmw3360_reg_read_def read_transaction_def Let_def split: if_splits prod.splits)

lemma reg_write_eq:
  "pmw3360_reg_write e reg val lg = (spi_write e lg [reg OR 0x80, val],
      lg @ write_transaction reg val (spi_write e lg [reg OR 0x80, val]))"
  by (simp add: pmw3360_reg_write_def write_transaction_def Let_def)

lemma honest_log_append:
  "honest_log e lg (a @ b) \<longleftrightarrow> honest_log e lg a \<and> honest_log e (lg @ a) b"
  by (induction a arbitrary: lg) auto

lemma reg_read_honest:
  assumes "pmw3360_reg_read e reg val lg = ((err, v), lg')"
  shows "\<exists>tr. lg' = lg @ tr \<and> honest_log e lg tr"
  using assms
  by (auto simp: pmw3360_reg_read_def Let_def split: if_splits prod.splits)

lemma reg_read_outcome:
  assumes "pmw3360_reg_read e reg val lg = ((err, v), lg')"
  shows "\<exists>tr. lg' = lg @ tr \<and> honest_log e lg tr
           \<and> (if err = 0 then tr = read_transaction reg 0 v else failed_read reg tr \<and> v = val)"
  using assms
  by (auto simp: pmw3360_reg_read_def Let_def read_transaction_def failed_read_def
      split: if_splits prod.splits)

lemma reg_write_honest:
  "honest_log e lg (write_transaction reg val (spi_write e lg [reg OR 0x80, val]))"
  by (simp add: write_transaction_def)

text \<open>
  C10. Whenever \<^verbatim>\<open>pmw3360_reg_read\<close> returns a non-zero code, whether it comes from the
  write of the address or from the read of the byte, the byte behind the out-parameter
  is the one that was there at the call.
\<close>

theorem reg_read_error_keeps_val:
  assumes "pmw3360_reg_read e reg val lg = ((err, v), lg')" and "err \<noteq> 0"
  shows "v = val"
  using assms
  by (auto simp: pmw3360_reg_read_def Let_def split: if_splits prod.splits)

theorem reg_read_error_keeps_val_witness:
  "pmw3360_reg_read read_fail_env 0x02 0x55 [] =
     ((- 5, 0x55), [SpiWrite [0x02] 0, BusyWait 160, SpiRead (- 5) 0xEE, SpiRelease, BusyWait 19])
   \<and> (- 5 :: int) \<noteq> 0 \<and> (0x55 :: byte) = 0x55"
proof -
  have run: "pmw3360_reg_read read_fail_env 0x02 0x55 [] =
     ((- 5, 0x55), [SpiWrite [0x02] 0, BusyWait 160, SpiRead (- 5) 0xEE, SpiRelease, BusyWait 19])"
    by (simp add: pmw3360_reg_read_def read_fail_env_def EIO_def Let_def)
  have ne: "(- 5 :: int) \<noteq> 0" by simp
  from reg_read_error_keeps_val [OF run ne] run ne show ?thesis by simp
qed

text \<open>
  C2, as the code has it. \<^verbatim>\<open>pmw3360_reg_read\<close> first writes the one-byte address frame
  with the top bit cleared. When that write succeeds, it waits 160, reads one byte,
  releases the hold and waits 19, and returns the code of the read, whether the read
  succeeded or not. When the write fails, it releases the hold and returns the code of
  the write at once: there is no guard wait and no read on that path.
\<close>

theorem reg_read_log:
  assumes "pmw3360_reg_read e reg val lg = ((err, v), lg')"
  shows "(\<exists>wrc. wrc = spi_write e lg [reg AND 0x7F] \<and> wrc \<noteq> 0 \<and> err = wrc
            \<and> lg' = lg @ [SpiWrite [reg AND 0x7F] wrc, SpiRelease])
       \<or> (\<exists>d. spi_write e lg [reg AND 0x7F] = 0
            \<and> (err, d) = spi_read e (lg @ [SpiWrite [reg AND 0x7F] 0, BusyWait 160])
            \<and> lg' = lg @ [SpiWrite [reg AND 0x7F] 0, BusyWait 160, SpiRead err d, SpiRelease, BusyWait 19])"
  using assms
  by (auto simp: pmw3360_reg_read_def Let_def split: if_splits prod.splits)

theorem reg_read_log_witness:
  "pmw3360_reg_read (sensor_env (regs_of [(0x02, 0x80)]) {}) 0x82 0 [] =
     ((0, 0x80), [SpiWrite [0x02] 0, BusyWait 160, SpiRead 0 0x80, SpiRelease, BusyWait 19])"
proof -
  obtain err v lg' where run:
    "pmw3360_reg_read (sensor_env (regs_of [(0x02, 0x80)]) {}) 0x82 0 [] = ((err, v), lg')"
    by (metis prod.exhaust)
  have ok: "fst (fst (pmw3360_reg_read (sensor_env (regs_of [(0x02, 0x80)]) {}) 0x82 0 [])) = 0"
    and val: "snd (fst (pmw3360_reg_read (sensor_env (regs_of [(0x02, 0x80)]) {}) 0x82 0 [])) = 0x80"
    by (simp_all add: pmw3360_reg_read_def sensor_env_def regs_of_def last_addr_def Let_def)
  from ok val run have ev: "err = 0" "v = 0x80" by simp_all
  from reg_read_log [OF run] ev
  have "lg' = [SpiWrite [0x02] 0, BusyWait 160, SpiRead 0 0x80, SpiRelease, BusyWait 19]"
    by (auto simp: sensor_env_def regs_of_def last_addr_def)
  with run ev show ?thesis by simp
qed

theorem reg_read_write_failure_counterexample:
  "pmw3360_reg_read (sensor_env (regs_of []) {0x02}) 0x02 0 [] =
     ((- 5, 0), [SpiWrite [0x02] (- 5), SpiRelease])
   \<and> \<not> list_ex is_busy_wait (snd (pmw3360_reg_read (sensor_env (regs_of []) {0x02}) 0x02 0 []))"
  by (simp add: pmw3360_reg_read_def sensor_env_def EIO_def Let_def)

section \<open>Resolution\<close>

lemma clamp_cpi_unat:
  "unat (if (c :: 16 word) < 100 then 100 else if c > 12000 then 12000 else c) =
     max 100 (min 12000 (unat c))"
  by (auto simp: word_less_nat_alt not_less word_le_nat_alt)

lemma cpi_reg_val:
  fixes c :: "16 word"
  assumes "100 \<le> unat c"
  shows "(ucast ((ucast c :: 32 word) div 100 - 1) :: byte) = of_nat (unat c div 100 - 1)"
proof -
  have "uint (ucast c :: 32 word) = uint c"
    by (rule uint_up_ucast) (simp add: is_up)
  then have u: "unat (ucast c :: 32 word) = unat c"
    by (simp only: unat_eq_nat_uint)
  have d: "unat ((ucast c :: 32 word) div 100) = unat c div 100"
    by (simp add: unat_div u)
  have ge: "1 \<le> unat c div 100"
    using assms by (simp add: less_eq_div_iff_mult_less_eq)
  have nz: "(ucast c :: 32 word) div 100 \<noteq> 0"
    using d ge by (metis not_one_le_zero unat_0)
  have h: "unat ((ucast c :: 32 word) div 100 - 1) = unat c div 100 - 1"
    using unat_minus_one [OF nz] d by simp
  then show ?thesis
    by (metis of_nat_unat)
qed

lemma set_cpi_reg_val:
  "pmw3360_set_cpi e cfg lg =
     pmw3360_reg_write e PMW3360_CONFIG1 (of_nat (cpi_encoding_spec (unat (cpi cfg)))) lg"
proof -
  let ?c = "if cpi cfg < 100 then 100 else if cpi cfg > 12000 then 12000 else cpi cfg"
  have u: "unat ?c = max 100 (min 12000 (unat (cpi cfg)))"
    by (rule clamp_cpi_unat)
  then have "100 \<le> unat ?c" by simp
  from cpi_reg_val [OF this] u
  have "(ucast ((ucast ?c :: 32 word) div 100 - 1) :: byte) =
          of_nat (cpi_encoding_spec (unat (cpi cfg)))"
    by (simp only: cpi_encoding_spec_def)
  then show ?thesis
    by (simp only: pmw3360_set_cpi_def Let_def)
qed

text \<open>
  C8. For every requested CPI, \<^verbatim>\<open>pmw3360_set_cpi\<close> writes to the resolution register
  (\<^verbatim>\<open>CONFIG1\<close>, frame address \<open>0x8F\<close>) the encoding of the specification: the request
  clamped to [100, 12000], divided by 100, minus 1. A request of 50 is written as 0, as a
  request of 100 is; a request of 20000 is written as 119, as a request of 12000 is.
\<close>

theorem set_cpi_encoding:
  "pmw3360_set_cpi e cfg lg =
     (spi_write e lg [0x8F, of_nat (cpi_encoding_spec (unat (cpi cfg)))],
      lg @ write_transaction PMW3360_CONFIG1 (of_nat (cpi_encoding_spec (unat (cpi cfg))))
             (spi_write e lg [0x8F, of_nat (cpi_encoding_spec (unat (cpi cfg)))]))
   \<and> cpi_encoding_spec 50 = 0 \<and> cpi_encoding_spec 100 = 0
   \<and> cpi_encoding_spec 20000 = 119 \<and> cpi_encoding_spec 12000 = 119
   \<and> pmw3360_set_cpi e (cfg\<lparr>cpi := 50\<rparr>) lg = pmw3360_set_cpi e (cfg\<lparr>cpi := 100\<rparr>) lg
   \<and> snd (pmw3360_set_cpi e (cfg\<lparr>cpi := 50\<rparr>) lg) =
        lg @ [SpiWrite [0x8F, 0] (spi_write e lg [0x8F, 0]), BusyWait 35, SpiRelease, BusyWait 145]
   \<and> pmw3360_set_cpi e (cfg\<lparr>cpi := 20000\<rparr>) lg = pmw3360_set_cpi e (cfg\<lparr>cpi := 12000\<rparr>) lg
   \<and> snd (pmw3360_set_cpi e (cfg\<lparr>cpi := 20000\<rparr>) lg) =
        lg @ [SpiWrite [0x8F, 119] (spi_write e lg [0x8F, 119]), BusyWait 35, SpiRelease, BusyWait 145]"
proof -
  have gen: "pmw3360_set_cpi e cfg lg =
     (spi_write e lg [0x8F, of_nat (cpi_encoding_spec (unat (cpi cfg)))],
      lg @ write_transaction PMW3360_CONFIG1 (of_nat (cpi_encoding_spec (unat (cpi cfg))))
             (spi_write e lg [0x8F, of_nat (cpi_encoding_spec (unat (cpi cfg)))]))" for cfg
    by (simp add: set_cpi_reg_val reg_write_eq PMW3360_CONFIG1_def)
  have enc: "cpi_encoding_spec 50 = 0" "cpi_encoding_spec 100 = 0"
    "cpi_encoding_spec 20000 = 119" "cpi_encoding_spec 12000 = 119"
    by (simp_all add: cpi_encoding_spec_def)
  have lo: "pmw3360_set_cpi e (cfg\<lparr>cpi := 50\<rparr>) lg = pmw3360_set_cpi e (cfg\<lparr>cpi := 100\<rparr>) lg"
    by (simp add: gen enc)
  have hi: "pmw3360_set_cpi e (cfg\<lparr>cpi := 20000\<rparr>) lg = pmw3360_set_cpi e (cfg\<lparr>cpi := 12000\<rparr>) lg"
    by (simp add: gen enc)
  have lo_log: "snd (pmw3360_set_cpi e (cfg\<lparr>cpi := 50\<rparr>) lg) =
        lg @ [SpiWrite [0x8F, 0] (spi_write e lg [0x8F, 0]), BusyWait 35, SpiRelease, BusyWait 145]"
    by (simp add: gen enc write_transaction_def PMW3360_CONFIG1_def)
  have hi_log: "snd (pmw3360_set_cpi e (cfg\<lparr>cpi := 20000\<rparr>) lg) =
        lg @ [SpiWrite [0x8F, 119] (spi_write e lg [0x8F, 119]), BusyWait 35, SpiRelease, BusyWait 145]"
    by (simp add: gen enc write_transaction_def PMW3360_CONFIG1_def)
  from gen [of cfg] enc lo hi lo_log hi_log show ?thesis
    by (intro conjI)
qed

section \<open>Motion samples\<close>

lemma combine_bytes_cat:
  "(ucast (push_bit 8 (ucast (hi :: byte) :: 32 word) OR ucast (lo :: byte)) :: 16 word) =
     word_cat hi lo"
  by (rule bit_word_eqI) (auto simp add: bit_simps dest: bit_imp_le_length)

lemma combine_bytes_uint:
  "uint (ucast (push_bit 8 (ucast (hi :: byte) :: 32 word) OR ucast (lo :: byte)) :: 16 word) =
     256 * uint hi + uint lo"
proof -
  have hi: "uint hi < 256" using uint_bounded [of hi] by simp
  have lo: "uint lo < 256" using uint_bounded [of lo] by simp
  have "uint (word_cat hi lo :: 16 word) = (256 * uint hi + uint lo) mod 65536"
    by (simp add: word_cat_eq push_bit_eq_mult uint_word_ariths uint_up_ucast is_up mod_simps
        mult.commute)
  also have "\<dots> = 256 * uint hi + uint lo"
    using hi lo by (simp add: mod_pos_pos_trivial)
  finally show ?thesis by (simp add: combine_bytes_cat)
qed

lemma address_frames_append [simp]:
  "address_frames (xs @ ys) = address_frames xs @ address_frames ys"
  by (induction xs rule: address_frames.induct) auto

lemma read_motion_shape:
  assumes "pmw3360_read_motion e dx0 dy0 lg = ((ok, dx, dy), lg')"
  shows "(\<exists>rc rest. lg' = lg @ SpiWrite [PMW3360_MOTION] rc # rest)
    \<and> (\<forall>m rest. lg' = lg @ read_transaction PMW3360_MOTION 0 m @ rest \<and> m AND 0x80 = 0
            \<longrightarrow> \<not> ok \<and> rest = [])
    \<and> (ok \<longleftrightarrow> (\<exists>m xl xh yl yh. m AND 0x80 \<noteq> 0 \<and>
            lg' = lg @ read_transaction PMW3360_MOTION 0 m
                     @ read_transaction PMW3360_DELTA_X_L 0 xl @ read_transaction PMW3360_DELTA_X_H 0 xh
                     @ read_transaction PMW3360_DELTA_Y_L 0 yl @ read_transaction PMW3360_DELTA_Y_H 0 yh))
    \<and> (\<not> ok \<longrightarrow> dx = dx0 \<and> dy = dy0)"
  using assms
  unfolding pmw3360_read_motion_def Let_def
  by (auto split: if_splits prod.splits dest!: reg_read_cases
      simp: read_transaction_def reg_addr_simps)

lemma read_motion_values:
  assumes "pmw3360_read_motion e dx0 dy0 lg = ((ok, dx, dy), lg')"
  shows "\<forall>m xl xh yl yh. lg' = lg @ read_transaction PMW3360_MOTION 0 m
                     @ read_transaction PMW3360_DELTA_X_L 0 xl @ read_transaction PMW3360_DELTA_X_H 0 xh
                     @ read_transaction PMW3360_DELTA_Y_L 0 yl @ read_transaction PMW3360_DELTA_Y_H 0 yh
     \<longrightarrow> uint dx = 256 * uint xh + uint xl \<and> uint dy = 256 * uint yh + uint yl"
  using assms
  unfolding pmw3360_read_motion_def Let_def
  by (auto split: if_splits prod.splits dest!: reg_read_cases
      simp: read_transaction_def reg_addr_simps combine_bytes_uint)

lemma read_motion_order:
  assumes "pmw3360_read_motion e dx0 dy0 lg = ((ok, dx, dy), lg')"
  shows "\<exists>tr rest. lg' = lg @ tr \<and>
       [PMW3360_MOTION, PMW3360_DELTA_X_L, PMW3360_DELTA_X_H, PMW3360_DELTA_Y_L, PMW3360_DELTA_Y_H]
         = address_frames tr @ rest"
  using assms
  unfolding pmw3360_read_motion_def Let_def
  by (auto split: if_splits prod.splits dest!: reg_read_cases
      simp: reg_addr_simps read_transaction_def)

lemma read_motion_example_set:
  "pmw3360_read_motion
      (sensor_env (regs_of [(0x02, 0x80), (0x03, 0x10), (0x04, 0x00), (0x05, 0xF0), (0x06, 0xFF)]) {})
      0 0 [] =
     ((True, 16, - 16),
      read_transaction 0x02 0 0x80 @ read_transaction 0x03 0 0x10 @ read_transaction 0x04 0 0x00
        @ read_transaction 0x05 0 0xF0 @ read_transaction 0x06 0 0xFF)"
  by (simp add: pmw3360_read_motion_def pmw3360_reg_read_def sensor_env_def regs_of_def
      reg_addr_simps Let_def last_addr_def read_transaction_def)

lemma read_motion_example_clear:
  "pmw3360_read_motion
      (sensor_env (regs_of [(0x02, 0x00), (0x03, 0x10), (0x04, 0x00), (0x05, 0xF0), (0x06, 0xFF)]) {})
      0 0 [] =
     ((False, 0, 0), read_transaction 0x02 0 0x00)"
  by (simp add: pmw3360_read_motion_def pmw3360_reg_read_def sensor_env_def regs_of_def
      reg_addr_simps Let_def last_addr_def read_transaction_def)

lemma read_motion_complete:
  assumes "pmw3360_read_motion e dx0 dy0 lg = ((ok, dx, dy), lg')"
  shows "\<exists>tr. lg' = lg @ tr \<and> honest_log e lg tr \<and>
     ((failed_read PMW3360_MOTION tr \<and> \<not> ok)
    \<or> (\<exists>m. m AND 0x80 = 0 \<and> tr = read_transaction PMW3360_MOTION 0 m \<and> \<not> ok)
    \<or> (\<exists>m f. m AND 0x80 \<noteq> 0 \<and> failed_read PMW3360_DELTA_X_L f
           \<and> tr = read_transaction PMW3360_MOTION 0 m @ f \<and> \<not> ok)
    \<or> (\<exists>m xl f. m AND 0x80 \<noteq> 0 \<and> failed_read PMW3360_DELTA_X_H f
           \<and> tr = read_transaction PMW3360_MOTION 0 m @ read_transaction PMW3360_DELTA_X_L 0 xl @ f
           \<and> \<not> ok)
    \<or> (\<exists>m xl xh f. m AND 0x80 \<noteq> 0 \<and> failed_read PMW3360_DELTA_Y_L f
           \<and> tr = read_transaction PMW3360_MOTION 0 m @ read_transaction PMW3360_DELTA_X_L 0 xl
                  @ read_transaction PMW3360_DELTA_X_H 0 xh @ f
           \<and> \<not> ok)
    \<or> (\<exists>m xl xh yl f. m AND 0x80 \<noteq> 0 \<and> failed_read PMW3360_DELTA_Y_H f
           \<and> tr = read_transaction PMW3360_MOTION 0 m @ read_transaction PMW3360_DELTA_X_L 0 xl
                  @ read_transaction PMW3360_DELTA_X_H 0 xh @ read_transaction PMW3360_DELTA_Y_L 0 yl @ f
           \<and> \<not> ok)
    \<or> (\<exists>m xl xh yl yh. m AND 0x80 \<noteq> 0
           \<and> tr = read_transaction PMW3360_MOTION 0 m @ read_transaction PMW3360_DELTA_X_L 0 xl
                  @ read_transaction PMW3360_DELTA_X_H 0 xh @ read_transaction PMW3360_DELTA_Y_L 0 yl
                  @ read_transaction PMW3360_DELTA_Y_H 0 yh
           \<and> ok \<and> uint dx = 256 * uint xh + uint xl \<and> uint dy = 256 * uint yh + uint yl))"
proof -
  obtain e0 m l0 where r0: "pmw3360_reg_read e PMW3360_MOTION 0 lg = ((e0, m), l0)"
    by (metis prod.exhaust)
  from reg_read_outcome [OF r0] obtain t0 where t0: "l0 = lg @ t0" "honest_log e lg t0"
    "if e0 = 0 then t0 = read_transaction PMW3360_MOTION 0 m else failed_read PMW3360_MOTION t0 \<and> m = 0"
    by blast
  show ?thesis
  proof (cases "e0 \<noteq> 0 \<or> m AND 0x80 = 0")
    case True
    with assms r0 have "\<not> ok" "lg' = l0"
      by (auto simp: pmw3360_read_motion_def Let_def split: if_splits)
    moreover have "(failed_read PMW3360_MOTION t0 \<and> \<not> ok)
        \<or> (\<exists>m. m AND 0x80 = 0 \<and> t0 = read_transaction PMW3360_MOTION 0 m \<and> \<not> ok)"
      using t0(3) True \<open>\<not> ok\<close> by (cases "e0 = 0") auto
    ultimately show ?thesis
      using t0(1,2) by (intro exI [of _ t0]) blast
  next
    case False
    then have b0: "e0 = 0" "m AND 0x80 \<noteq> 0" by simp_all
    with t0 have s0: "t0 = read_transaction PMW3360_MOTION 0 m" by simp
    obtain e1 xl l1 where r1: "pmw3360_reg_read e PMW3360_DELTA_X_L 0 l0 = ((e1, xl), l1)"
      by (metis prod.exhaust)
    from reg_read_outcome [OF r1] obtain t1 where t1: "l1 = l0 @ t1" "honest_log e l0 t1"
      "if e1 = 0 then t1 = read_transaction PMW3360_DELTA_X_L 0 xl
       else failed_read PMW3360_DELTA_X_L t1 \<and> xl = 0"
      by blast
    have h1: "honest_log e lg (t0 @ t1)"
      using t0 t1 by (simp add: honest_log_append)
    show ?thesis
    proof (cases "e1 \<noteq> 0")
      case True
      with assms r0 r1 b0 have "\<not> ok" "lg' = l1"
        by (auto simp: pmw3360_read_motion_def Let_def split: if_splits)
      moreover have "\<exists>m f. m AND 0x80 \<noteq> 0 \<and> failed_read PMW3360_DELTA_X_L f
           \<and> t0 @ t1 = read_transaction PMW3360_MOTION 0 m @ f \<and> \<not> ok"
        using t1(3) True b0 s0 \<open>\<not> ok\<close> by (intro exI [of _ m] exI [of _ t1]) simp
      moreover have "lg' = lg @ t0 @ t1" using \<open>lg' = l1\<close> t0(1) t1(1) by simp
      ultimately show ?thesis
        using h1 by (intro exI [of _ "t0 @ t1"]) blast
    next
      case False
      then have b1: "e1 = 0" by simp
      with t1 have s1: "t1 = read_transaction PMW3360_DELTA_X_L 0 xl" by simp
      obtain e2 xh l2 where r2: "pmw3360_reg_read e PMW3360_DELTA_X_H 0 l1 = ((e2, xh), l2)"
        by (metis prod.exhaust)
      from reg_read_outcome [OF r2] obtain t2 where t2: "l2 = l1 @ t2" "honest_log e l1 t2"
        "if e2 = 0 then t2 = read_transaction PMW3360_DELTA_X_H 0 xh
         else failed_read PMW3360_DELTA_X_H t2 \<and> xh = 0"
        by blast
      have h2: "honest_log e lg (t0 @ t1 @ t2)"
        using t0 t1 t2 by (simp add: honest_log_append)
      show ?thesis
      proof (cases "e2 \<noteq> 0")
        case True
        with assms r0 r1 r2 b0 b1 have "\<not> ok" "lg' = l2"
          by (auto simp: pmw3360_read_motion_def Let_def split: if_splits)
        moreover have "\<exists>m xl f. m AND 0x80 \<noteq> 0 \<and> failed_read PMW3360_DELTA_X_H f
           \<and> t0 @ t1 @ t2 = read_transaction PMW3360_MOTION 0 m
                  @ read_transaction PMW3360_DELTA_X_L 0 xl @ f \<and> \<not> ok"
          using t2(3) True b0 s0 s1 \<open>\<not> ok\<close>
          by (intro exI [of _ m] exI [of _ xl] exI [of _ t2]) simp
        moreover have "lg' = lg @ t0 @ t1 @ t2" using \<open>lg' = l2\<close> t0(1) t1(1) t2(1) by simp
        ultimately show ?thesis
          using h2 by (intro exI [of _ "t0 @ t1 @ t2"]) blast
      next
        case False
        then have b2: "e2 = 0" by simp
        with t2 have s2: "t2 = read_transaction PMW3360_DELTA_X_H 0 xh" by simp
        obtain e3 yl l3 where r3: "pmw3360_reg_read e PMW3360_DELTA_Y_L 0 l2 = ((e3, yl), l3)"
          by (metis prod.exhaust)
        from reg_read_outcome [OF r3] obtain t3 where t3: "l3 = l2 @ t3" "honest_log e l2 t3"
          "if e3 = 0 then t3 = read_transaction PMW3360_DELTA_Y_L 0 yl
           else failed_read PMW3360_DELTA_Y_L t3 \<and> yl = 0"
          by blast
        have h3: "honest_log e lg (t0 @ t1 @ t2 @ t3)"
          using t0 t1 t2 t3 by (simp add: honest_log_append)
        show ?thesis
        proof (cases "e3 \<noteq> 0")
          case True
          with assms r0 r1 r2 r3 b0 b1 b2 have "\<not> ok" "lg' = l3"
            by (auto simp: pmw3360_read_motion_def Let_def split: if_splits)
          moreover have "\<exists>m xl xh f. m AND 0x80 \<noteq> 0 \<and> failed_read PMW3360_DELTA_Y_L f
             \<and> t0 @ t1 @ t2 @ t3 = read_transaction PMW3360_MOTION 0 m
                    @ read_transaction PMW3360_DELTA_X_L 0 xl
                    @ read_transaction PMW3360_DELTA_X_H 0 xh @ f \<and> \<not> ok"
            using t3(3) True b0 s0 s1 s2 \<open>\<not> ok\<close>
            by (intro exI [of _ m] exI [of _ xl] exI [of _ xh] exI [of _ t3]) simp
          moreover have "lg' = lg @ t0 @ t1 @ t2 @ t3"
            using \<open>lg' = l3\<close> t0(1) t1(1) t2(1) t3(1) by simp
          ultimately show ?thesis
            using h3 by (intro exI [of _ "t0 @ t1 @ t2 @ t3"]) blast
        next
          case False
          then have b3: "e3 = 0" by simp
          with t3 have s3: "t3 = read_transaction PMW3360_DELTA_Y_L 0 yl" by simp
          obtain e4 yh l4 where r4: "pmw3360_reg_read e PMW3360_DELTA_Y_H 0 l3 = ((e4, yh), l4)"
            by (metis prod.exhaust)
          from reg_read_outcome [OF r4] obtain t4 where t4: "l4 = l3 @ t4" "honest_log e l3 t4"
            "if e4 = 0 then t4 = read_transaction PMW3360_DELTA_Y_H 0 yh
             else failed_read PMW3360_DELTA_Y_H t4 \<and> yh = 0"
            by blast
          have h4: "honest_log e lg (t0 @ t1 @ t2 @ t3 @ t4)"
            using t0 t1 t2 t3 t4 by (simp add: honest_log_append)
          show ?thesis
          proof (cases "e4 \<noteq> 0")
            case True
            with assms r0 r1 r2 r3 r4 b0 b1 b2 b3 have "\<not> ok" "lg' = l4"
              by (auto simp: pmw3360_read_motion_def Let_def split: if_splits)
            moreover have "\<exists>m xl xh yl f. m AND 0x80 \<noteq> 0 \<and> failed_read PMW3360_DELTA_Y_H f
               \<and> t0 @ t1 @ t2 @ t3 @ t4 = read_transaction PMW3360_MOTION 0 m
                      @ read_transaction PMW3360_DELTA_X_L 0 xl
                      @ read_transaction PMW3360_DELTA_X_H 0 xh
                      @ read_transaction PMW3360_DELTA_Y_L 0 yl @ f \<and> \<not> ok"
              using t4(3) True b0 s0 s1 s2 s3 \<open>\<not> ok\<close>
              by (intro exI [of _ m] exI [of _ xl] exI [of _ xh] exI [of _ yl] exI [of _ t4]) simp
            moreover have "lg' = lg @ t0 @ t1 @ t2 @ t3 @ t4"
              using \<open>lg' = l4\<close> t0(1) t1(1) t2(1) t3(1) t4(1) by simp
            ultimately show ?thesis
              using h4 by (intro exI [of _ "t0 @ t1 @ t2 @ t3 @ t4"]) blast
          next
            case False
            then have b4: "e4 = 0" by simp
            with t4 have s4: "t4 = read_transaction PMW3360_DELTA_Y_H 0 yh" by simp
            from assms r0 r1 r2 r3 r4 b0 b1 b2 b3 b4 have res: "ok" "lg' = l4"
              "dx = ucast (push_bit 8 (ucast xh :: 32 word) OR ucast xl)"
              "dy = ucast (push_bit 8 (ucast yh :: 32 word) OR ucast yl)"
              by (auto simp: pmw3360_read_motion_def Let_def split: if_splits)
            have v: "uint dx = 256 * uint xh + uint xl" "uint dy = 256 * uint yh + uint yl"
              unfolding res by (rule combine_bytes_uint)+
            have "\<exists>m xl xh yl yh. m AND 0x80 \<noteq> 0
               \<and> t0 @ t1 @ t2 @ t3 @ t4 = read_transaction PMW3360_MOTION 0 m
                      @ read_transaction PMW3360_DELTA_X_L 0 xl
                      @ read_transaction PMW3360_DELTA_X_H 0 xh
                      @ read_transaction PMW3360_DELTA_Y_L 0 yl
                      @ read_transaction PMW3360_DELTA_Y_H 0 yh
               \<and> ok \<and> uint dx = 256 * uint xh + uint xl \<and> uint dy = 256 * uint yh + uint yl"
              using b0 s0 s1 s2 s3 s4 res(1) v
              by (intro exI [of _ m] exI [of _ xl] exI [of _ xh] exI [of _ yl] exI [of _ yh]) simp
            moreover have "lg' = lg @ t0 @ t1 @ t2 @ t3 @ t4"
              using res(2) t0(1) t1(1) t2(1) t3(1) t4(1) by simp
            ultimately show ?thesis
              using h4 by (intro exI [of _ "t0 @ t1 @ t2 @ t3 @ t4"]) blast
          qed
        qed
      qed
    qed
  qed
qed

lemma read_motion_example_other_bits:
  "pmw3360_read_motion (sensor_env (regs_of [(0x02, 0x81), (0x03, 0x05)]) {}) 0 0 [] =
     ((True, 5, 0),
      read_transaction 0x02 0 0x81 @ read_transaction 0x03 0 0x05 @ read_transaction 0x04 0 0
        @ read_transaction 0x05 0 0 @ read_transaction 0x06 0 0)"
  by (simp add: pmw3360_read_motion_def pmw3360_reg_read_def sensor_env_def regs_of_def
      reg_addr_simps Let_def last_addr_def read_transaction_def)

text \<open>
  C4. \<^verbatim>\<open>pmw3360_read_motion\<close> addresses the status register first, and every outcome
  in its log is the one the bus gave. The sample takes one of seven courses and no other:
  the status read fails; the status read succeeds with the bit \<open>0x80\<close> clear, and
  nothing more is read; the bit is set (whatever the other bits are) and the read of
  X-low, of X-high, of Y-low or of Y-high is the first to fail, the reads before it, in
  that order, having succeeded; or all five reads succeed. Only the last course is a
  motion; the six others are "no motion" and leave the out-parameters alone. In a motion
  each delta has the high byte as its upper eight bits and the low byte as its lower
  eight, and is read as a signed 16-bit value: status \<open>0x80\<close>, X bytes \<open>0x10, 0x00\<close>
  and Y bytes \<open>0xF0, 0xFF\<close> give 16 and -16, and status \<open>0x81\<close> with X-low \<open>0x05\<close>
  gives 5 and 0.
\<close>

theorem read_motion_spec:
  assumes "pmw3360_read_motion e dx0 dy0 lg = ((ok, dx, dy), lg')"
  shows "(\<exists>rc rest. lg' = lg @ SpiWrite [PMW3360_MOTION] rc # rest)
    \<and> (\<forall>m rest. lg' = lg @ read_transaction PMW3360_MOTION 0 m @ rest \<and> m AND 0x80 = 0
            \<longrightarrow> \<not> ok \<and> rest = [])
    \<and> (\<exists>tr rest. lg' = lg @ tr \<and>
         [PMW3360_MOTION, PMW3360_DELTA_X_L, PMW3360_DELTA_X_H, PMW3360_DELTA_Y_L, PMW3360_DELTA_Y_H]
           = address_frames tr @ rest)
    \<and> (ok \<longleftrightarrow> (\<exists>m xl xh yl yh. m AND 0x80 \<noteq> 0 \<and>
            lg' = lg @ read_transaction PMW3360_MOTION 0 m
                     @ read_transaction PMW3360_DELTA_X_L 0 xl @ read_transaction PMW3360_DELTA_X_H 0 xh
                     @ read_transaction PMW3360_DELTA_Y_L 0 yl @ read_transaction PMW3360_DELTA_Y_H 0 yh))
    \<and> (\<forall>m xl xh yl yh. lg' = lg @ read_transaction PMW3360_MOTION 0 m
                     @ read_transaction PMW3360_DELTA_X_L 0 xl @ read_transaction PMW3360_DELTA_X_H 0 xh
                     @ read_transaction PMW3360_DELTA_Y_L 0 yl @ read_transaction PMW3360_DELTA_Y_H 0 yh
          \<longrightarrow> uint dx = 256 * uint xh + uint xl \<and> uint dy = 256 * uint yh + uint yl)
    \<and> (\<not> ok \<longrightarrow> dx = dx0 \<and> dy = dy0)
    \<and> (\<exists>tr. lg' = lg @ tr \<and> honest_log e lg tr \<and>
         ((failed_read PMW3360_MOTION tr \<and> \<not> ok)
        \<or> (\<exists>m. m AND 0x80 = 0 \<and> tr = read_transaction PMW3360_MOTION 0 m \<and> \<not> ok)
        \<or> (\<exists>m f. m AND 0x80 \<noteq> 0 \<and> failed_read PMW3360_DELTA_X_L f
               \<and> tr = read_transaction PMW3360_MOTION 0 m @ f \<and> \<not> ok)
        \<or> (\<exists>m xl f. m AND 0x80 \<noteq> 0 \<and> failed_read PMW3360_DELTA_X_H f
               \<and> tr = read_transaction PMW3360_MOTION 0 m @ read_transaction PMW3360_DELTA_X_L 0 xl @ f
               \<and> \<not> ok)
        \<or> (\<exists>m xl xh f. m AND 0x80 \<noteq> 0 \<and> failed_read PMW3360_DELTA_Y_L f
               \<and> tr = read_transaction PMW3360_MOTION 0 m @ read_transaction PMW3360_DELTA_X_L 0 xl
                      @ read_transaction PMW3360_DELTA_X_H 0 xh @ f
               \<and> \<not> ok)
        \<or> (\<exists>m xl xh yl f. m AND 0x80 \<noteq> 0 \<and> failed_read PMW3360_DELTA_Y_H f
               \<and> tr = read_transaction PMW3360_MOTION 0 m @ read_transaction PMW3360_DELTA_X_L 0 xl
                      @ read_transaction PMW3360_DELTA_X_H 0 xh @ read_transaction PMW3360_DELTA_Y_L 0 yl @ f
               \<and> \<not> ok)
        \<or> (\<exists>m xl xh yl yh. m AND 0x80 \<noteq> 0
               \<and> tr = read_transaction PMW3360_MOTION 0 m @ read_transaction PMW3360_DELTA_X_L 0 xl
                      @ read_transaction PMW3360_DELTA_X_H 0 xh @ read_transaction PMW3360_DELTA_Y_L 0 yl
                      @ read_transaction PMW3360_DELTA_Y_H 0 yh
               \<and> ok \<and> uint dx = 256 * uint xh + uint xl \<and> uint dy = 256 * uint yh + uint yl)))
    \<and> (case fst (pmw3360_read_motion
          (sensor_env (regs_of [(0x02, 0x80), (0x03, 0x10), (0x04, 0x00), (0x05, 0xF0), (0x06, 0xFF)]) {})
          0 0 []) of (ok, dx, dy) \<Rightarrow> ok \<and> sint dx = 16 \<and> sint dy = - 16)
    \<and> (case fst (pmw3360_read_motion (sensor_env (regs_of [(0x02, 0x81), (0x03, 0x05)]) {}) 0 0 [])
          of (ok, dx, dy) \<Rightarrow> ok \<and> sint dx = 5 \<and> sint dy = 0)"
proof -
  note s = read_motion_shape [OF assms]
  have ex: "(case fst (pmw3360_read_motion
          (sensor_env (regs_of [(0x02, 0x80), (0x03, 0x10), (0x04, 0x00), (0x05, 0xF0), (0x06, 0xFF)]) {})
          0 0 []) of (ok, dx, dy) \<Rightarrow> ok \<and> sint dx = 16 \<and> sint dy = - 16)"
    by (simp add: read_motion_example_set)
  have ex2: "(case fst (pmw3360_read_motion (sensor_env (regs_of [(0x02, 0x81), (0x03, 0x05)]) {}) 0 0 [])
          of (ok, dx, dy) \<Rightarrow> ok \<and> sint dx = 5 \<and> sint dy = 0)"
    by (simp add: read_motion_example_other_bits)
  show ?thesis
    apply (intro conjI)
            apply (use s in blast)
           apply (use s in blast)
          apply (rule read_motion_order [OF assms])
         apply (use s in blast)
        apply (rule read_motion_values [OF assms])
       apply (use s in blast)
      apply (rule read_motion_complete [OF assms])
     apply (rule ex)
    apply (rule ex2)
    done
qed

theorem read_motion_spec_witness:
  "pmw3360_read_motion
      (sensor_env (regs_of [(0x02, 0x00), (0x03, 0x10), (0x04, 0x00), (0x05, 0xF0), (0x06, 0xFF)]) {})
      0 0 [] = ((False, 0, 0), read_transaction PMW3360_MOTION 0 0x00 @ [])
   \<and> (0x00 :: byte) AND 0x80 = 0
   \<and> \<not> False \<and> ([] :: call list) = []
   \<and> pmw3360_read_motion (sensor_env (regs_of [(0x02, 0x81), (0x03, 0x05)]) {}) 0 0 [] =
     ((True, 5, 0),
      read_transaction PMW3360_MOTION 0 0x81 @ read_transaction PMW3360_DELTA_X_L 0 0x05
        @ read_transaction PMW3360_DELTA_X_H 0 0 @ read_transaction PMW3360_DELTA_Y_L 0 0
        @ read_transaction PMW3360_DELTA_Y_H 0 0)
   \<and> (0x81 :: byte) AND 0x80 \<noteq> 0
   \<and> uint (5 :: 16 word) = 256 * uint (0 :: byte) + uint (0x05 :: byte)"
proof -
  have run: "pmw3360_read_motion
      (sensor_env (regs_of [(0x02, 0x00), (0x03, 0x10), (0x04, 0x00), (0x05, 0xF0), (0x06, 0xFF)]) {})
      0 0 [] = ((False, 0, 0), [] @ read_transaction PMW3360_MOTION 0 0x00 @ [])"
    by (simp add: read_motion_example_clear PMW3360_MOTION_def)
  have run2: "pmw3360_read_motion (sensor_env (regs_of [(0x02, 0x81), (0x03, 0x05)]) {}) 0 0 [] =
     ((True, 5, 0),
      [] @ read_transaction PMW3360_MOTION 0 0x81 @ read_transaction PMW3360_DELTA_X_L 0 0x05
        @ read_transaction PMW3360_DELTA_X_H 0 0 @ read_transaction PMW3360_DELTA_Y_L 0 0
        @ read_transaction PMW3360_DELTA_Y_H 0 0)"
    by (simp add: read_motion_example_other_bits reg_addr_simps)
  from read_motion_spec [OF run2]
  have v: "uint (5 :: 16 word) = 256 * uint (0 :: byte) + uint (0x05 :: byte)"
    by blast
  have b: "(0x81 :: byte) AND 0x80 \<noteq> 0" by simp
  from read_motion_spec [OF run] run run2 v b show ?thesis
    by simp
qed

section \<open>Bring-up of the sensor\<close>

lemma init_cases:
  assumes "pmw3360_init e d cfg data lg = ((ret, data'), lg')"
  shows "(ret = 0 \<longleftrightarrow> spi_is_ready e \<and> (\<exists>rest. lg' = lg @ write_transaction PMW3360_POWER_UP_RESET 0x5A 0
              @ [Sleep 50] @ read_transaction PMW3360_PRODUCT_ID 0 0x42
              @ read_transaction PMW3360_REVISION_ID 0 0x01 @ rest))
    \<and> (ret \<noteq> 0 \<longrightarrow> data' = data \<and> (ret = - EIO \<or> ret = - ENODEV)
          \<and> (\<exists>tr. lg' = lg @ tr \<and> \<not> list_ex is_schedule tr \<and> WorkInit \<notin> set tr))
    \<and> (\<forall>p r rest. lg' = lg @ write_transaction PMW3360_POWER_UP_RESET 0x5A 0
              @ [Sleep 50] @ read_transaction PMW3360_PRODUCT_ID 0 p
              @ read_transaction PMW3360_REVISION_ID 0 r @ rest \<and> (p \<noteq> 0x42 \<or> r \<noteq> 0x01)
          \<longrightarrow> ret = - ENODEV \<and> rest = [])
    \<and> (ret = 0 \<longrightarrow> pmw3360_data.dev data' = Some d
          \<and> (\<exists>w2 w3. lg' = lg @ write_transaction PMW3360_POWER_UP_RESET 0x5A 0
              @ [Sleep 50] @ read_transaction PMW3360_PRODUCT_ID 0 0x42
              @ read_transaction PMW3360_REVISION_ID 0 0x01
              @ write_transaction PMW3360_CONFIG2 0x00 w2
              @ write_transaction PMW3360_CONFIG1 (of_nat (cpi_encoding_spec (unat (cpi cfg)))) w3
              @ [WorkInit, WorkSchedule (unat (polling_interval_ms cfg))]))"
  using assms
  unfolding pmw3360_init_def Let_def set_cpi_reg_val reg_write_eq
  by (auto split: if_splits prod.splits dest!: reg_read_cases
      simp: read_transaction_def write_transaction_def reg_addr_simps EIO_def ENODEV_def)

lemma init_example_config_fails:
  "pmw3360_init (sensor_env (regs_of [(0x00, 0x42), (0x01, 0x01)]) {0x8F}) 7
      \<lparr>polling_interval_ms = 4, cpi = 500\<rparr> \<lparr>pmw3360_data.dev = None\<rparr> [] =
   ((0, \<lparr>pmw3360_data.dev = Some 7\<rparr>),
    write_transaction 0x3A 0x5A 0 @ [Sleep 50] @ read_transaction 0x00 0 0x42
      @ read_transaction 0x01 0 0x01 @ write_transaction 0x10 0x00 0
      @ write_transaction 0x0F 4 (- 5) @ [WorkInit, WorkSchedule 4])"
  by (simp add: pmw3360_init_def pmw3360_reg_read_def pmw3360_reg_write_def pmw3360_set_cpi_def
      sensor_env_def regs_of_def reg_addr_simps Let_def last_addr_def read_transaction_def
      write_transaction_def EIO_def ENODEV_def)

lemma init_example_bad_id:
  "pmw3360_init (sensor_env (regs_of [(0x00, 0x42), (0x01, 0x02)]) {}) 7
      \<lparr>polling_interval_ms = 4, cpi = 500\<rparr> \<lparr>pmw3360_data.dev = None\<rparr> [] =
   ((- 19, \<lparr>pmw3360_data.dev = None\<rparr>),
    write_transaction 0x3A 0x5A 0 @ [Sleep 50] @ read_transaction 0x00 0 0x42
      @ read_transaction 0x01 0 0x02)"
  by (simp add: pmw3360_init_def pmw3360_reg_read_def pmw3360_reg_write_def pmw3360_set_cpi_def
      sensor_env_def regs_of_def reg_addr_simps Let_def last_addr_def read_transaction_def
      write_transaction_def EIO_def ENODEV_def)

lemma init_honest:
  assumes "pmw3360_init e d cfg data lg = ((ret, data'), lg')"
  shows "\<exists>tr. lg' = lg @ tr \<and> honest_log e lg tr"
proof (cases "spi_is_ready e")
  case False
  with assms show ?thesis by (simp add: pmw3360_init_def)
next
  case True
  let ?w0 = "spi_write e lg [PMW3360_POWER_UP_RESET OR 0x80, 0x5A]"
  let ?t0 = "write_transaction PMW3360_POWER_UP_RESET 0x5A ?w0"
  have h0: "honest_log e lg ?t0" by (rule reg_write_honest)
  show ?thesis
  proof (cases "?w0 \<noteq> 0")
    case w: True
    with assms True have "lg' = lg @ ?t0"
      by (simp add: pmw3360_init_def reg_write_eq Let_def)
    with h0 show ?thesis by blast
  next
    case False
    then have w0: "?w0 = 0" by simp
    let ?l0 = "lg @ ?t0 @ [Sleep 50]"
    have hl0: "honest_log e lg (?t0 @ [Sleep 50])"
      using h0 by (simp add: honest_log_append)
    obtain e1 pid l1 where r1: "pmw3360_reg_read e PMW3360_PRODUCT_ID 0 ?l0 = ((e1, pid), l1)"
      by (metis prod.exhaust)
    from reg_read_honest [OF r1] obtain t1 where t1: "l1 = ?l0 @ t1" "honest_log e ?l0 t1"
      by blast
    have hl1: "honest_log e lg (?t0 @ [Sleep 50] @ t1)"
      using hl0 t1(2) by (simp add: honest_log_append)
    have l1: "l1 = lg @ ?t0 @ [Sleep 50] @ t1" using t1(1) by simp
    show ?thesis
    proof (cases "e1 \<noteq> 0")
      case True
      with assms \<open>spi_is_ready e\<close> w0 r1 have "lg' = l1"
        by (simp add: pmw3360_init_def reg_write_eq Let_def)
      with l1 hl1 show ?thesis by blast
    next
      case False
      then have e10: "e1 = 0" by simp
      obtain e2 rev l2 where r2: "pmw3360_reg_read e PMW3360_REVISION_ID 0 l1 = ((e2, rev), l2)"
        by (metis prod.exhaust)
      from reg_read_honest [OF r2] obtain t2 where t2: "l2 = l1 @ t2" "honest_log e l1 t2"
        by blast
      have hl2: "honest_log e lg (?t0 @ [Sleep 50] @ t1 @ t2)"
        using hl1 t2(2) l1 by (simp add: honest_log_append)
      have l2: "l2 = lg @ ?t0 @ [Sleep 50] @ t1 @ t2" using t2(1) l1 by simp
      show ?thesis
      proof (cases "e2 \<noteq> 0 \<or> pid \<noteq> 0x42 \<or> rev \<noteq> 0x01")
        case True
        with assms \<open>spi_is_ready e\<close> w0 r1 e10 r2 have "lg' = l2"
          by (auto simp: pmw3360_init_def reg_write_eq Let_def split: if_splits)
        with l2 hl2 show ?thesis by blast
      next
        case False
        let ?w3 = "spi_write e l2 [PMW3360_CONFIG2 OR 0x80, 0x00]"
        let ?t3 = "write_transaction PMW3360_CONFIG2 0x00 ?w3"
        let ?l3 = "l2 @ ?t3"
        let ?v = "of_nat (cpi_encoding_spec (unat (cpi cfg))) :: byte"
        let ?w4 = "spi_write e ?l3 [PMW3360_CONFIG1 OR 0x80, ?v]"
        let ?t4 = "write_transaction PMW3360_CONFIG1 ?v ?w4"
        let ?tail = "[WorkInit, WorkSchedule (unat (polling_interval_ms cfg))]"
        from False assms \<open>spi_is_ready e\<close> w0 r1 e10 r2
        have "lg' = l2 @ ?t3 @ ?t4 @ ?tail"
          by (simp add: pmw3360_init_def reg_write_eq set_cpi_reg_val Let_def)
        then have eq: "lg' = lg @ (?t0 @ [Sleep 50] @ t1 @ t2 @ ?t3 @ ?t4 @ ?tail)"
          using l2 by simp
        have h3: "honest_log e l2 ?t3" by (rule reg_write_honest)
        have h4: "honest_log e ?l3 ?t4" by (rule reg_write_honest)
        have ht: "honest_log e (?l3 @ ?t4) ?tail" by simp
        have "honest_log e l2 (?t3 @ ?t4 @ ?tail)"
          using h3 h4 ht by (simp only: honest_log_append append_assoc)
        then have "honest_log e lg (?t0 @ [Sleep 50] @ t1 @ t2 @ ?t3 @ ?t4 @ ?tail)"
          using hl2 l2 by (simp add: honest_log_append)
        with eq show ?thesis by blast
      qed
    qed
  qed
qed

text \<open>
  C9. \<^verbatim>\<open>pmw3360_init\<close> returns 0 exactly when the bus is ready, the reset write
  succeeded, and the two identity reads after the settle time succeeded with the bytes
  \<open>0x42\<close> and \<open>0x01\<close>. Whenever it returns something else (the code is \<open>- EIO\<close> or
  \<open>- ENODEV\<close>), the instance data is untouched, the work item is not initialised and
  nothing is scheduled; two identity bytes other than \<open>(0x42, 0x01)\<close> give \<open>- ENODEV\<close>
  and end the bring-up there. On success the back pointer is set and the log ends with
  the two configuration writes, whatever they returned, and the first schedule: with a
  resolution write that fails with \<open>- EIO\<close>, the bring-up still returns 0 and schedules.
  Every outcome in the log is the one the bus gave.
\<close>

theorem init_identity:
  assumes "pmw3360_init e d cfg data lg = ((ret, data'), lg')"
  shows "(ret = 0 \<longleftrightarrow> spi_is_ready e \<and> (\<exists>rest. lg' = lg @ write_transaction PMW3360_POWER_UP_RESET 0x5A 0
              @ [Sleep 50] @ read_transaction PMW3360_PRODUCT_ID 0 0x42
              @ read_transaction PMW3360_REVISION_ID 0 0x01 @ rest))
    \<and> (ret \<noteq> 0 \<longrightarrow> data' = data \<and> (ret = - EIO \<or> ret = - ENODEV)
          \<and> (\<exists>tr. lg' = lg @ tr \<and> \<not> list_ex is_schedule tr \<and> WorkInit \<notin> set tr))
    \<and> (\<forall>p r rest. lg' = lg @ write_transaction PMW3360_POWER_UP_RESET 0x5A 0
              @ [Sleep 50] @ read_transaction PMW3360_PRODUCT_ID 0 p
              @ read_transaction PMW3360_REVISION_ID 0 r @ rest \<and> (p \<noteq> 0x42 \<or> r \<noteq> 0x01)
          \<longrightarrow> ret = - ENODEV \<and> rest = [])
    \<and> (ret = 0 \<longrightarrow> pmw3360_data.dev data' = Some d
          \<and> (\<exists>w2 w3. lg' = lg @ write_transaction PMW3360_POWER_UP_RESET 0x5A 0
              @ [Sleep 50] @ read_transaction PMW3360_PRODUCT_ID 0 0x42
              @ read_transaction PMW3360_REVISION_ID 0 0x01
              @ write_transaction PMW3360_CONFIG2 0x00 w2
              @ write_transaction PMW3360_CONFIG1 (of_nat (cpi_encoding_spec (unat (cpi cfg)))) w3
              @ [WorkInit, WorkSchedule (unat (polling_interval_ms cfg))]))
    \<and> (\<exists>tr. lg' = lg @ tr \<and> honest_log e lg tr)
    \<and> pmw3360_init (sensor_env (regs_of [(0x00, 0x42), (0x01, 0x01)]) {0x8F}) 7
          \<lparr>polling_interval_ms = 4, cpi = 500\<rparr> \<lparr>pmw3360_data.dev = None\<rparr> [] =
        ((0, \<lparr>pmw3360_data.dev = Some 7\<rparr>),
         write_transaction 0x3A 0x5A 0 @ [Sleep 50] @ read_transaction 0x00 0 0x42
           @ read_transaction 0x01 0 0x01 @ write_transaction 0x10 0x00 0
           @ write_transaction 0x0F 4 (- 5) @ [WorkInit, WorkSchedule 4])"
  using init_cases [OF assms] init_honest [OF assms] init_example_config_fails
  by (intro conjI) blast+

theorem init_identity_witness:
  "pmw3360_init (sensor_env (regs_of [(0x00, 0x42), (0x01, 0x02)]) {}) 7
      \<lparr>polling_interval_ms = 4, cpi = 500\<rparr> \<lparr>pmw3360_data.dev = None\<rparr> [] =
   ((- 19, \<lparr>pmw3360_data.dev = None\<rparr>),
    [] @ write_transaction PMW3360_POWER_UP_RESET 0x5A 0 @ [Sleep 50]
       @ read_transaction PMW3360_PRODUCT_ID 0 0x42 @ read_transaction PMW3360_REVISION_ID 0 0x02 @ [])
   \<and> (0x02 :: byte) \<noteq> 0x01 \<and> (- 19 :: int) = - ENODEV"
proof -
  have run: "pmw3360_init (sensor_env (regs_of [(0x00, 0x42), (0x01, 0x02)]) {}) 7
      \<lparr>polling_interval_ms = 4, cpi = 500\<rparr> \<lparr>pmw3360_data.dev = None\<rparr> [] =
   ((- 19, \<lparr>pmw3360_data.dev = None\<rparr>),
    [] @ write_transaction PMW3360_POWER_UP_RESET 0x5A 0 @ [Sleep 50]
       @ read_transaction PMW3360_PRODUCT_ID 0 0x42 @ read_transaction PMW3360_REVISION_ID 0 0x02 @ [])"
    by (simp add: init_example_bad_id reg_addr_simps)
  have ne: "(0x02 :: byte) \<noteq> 0x01" by simp
  from init_identity [OF run] ne have "(- 19 :: int) = - ENODEV"
    by blast
  with run ne show ?thesis by simp
qed

section \<open>Signed arithmetic and the deadzone\<close>

lemma sint_in_range32:
  fixes k :: int
  assumes "- 2147483648 \<le> k" "k < 2147483648"
  shows "sint (word_of_int k :: 32 word) = k"
  using assms by (simp add: sint_sbintrunc' signed_take_bit_int_eq_self)

lemma sint32_bounds: "- 2147483648 \<le> sint (v :: 32 word) \<and> sint v < 2147483648"
  using sint_ge [of v] sint_lt [of v] by simp

lemma uint16_bounds: "0 \<le> uint (d :: 16 word) \<and> uint d < 65536"
  using uint_bounded [of d] by simp

lemma sint_ucast_16_32: "sint (ucast (d :: 16 word) :: 32 word) = uint d"
proof -
  have "(ucast d :: 32 word) = word_of_int (uint d)"
    by simp
  moreover have "sint (word_of_int (uint d) :: 32 word) = uint d"
    by (rule sint_in_range32) (use uint16_bounds [of d] in linarith)+
  ultimately show ?thesis by simp
qed

lemma sint_minus32:
  fixes v :: "32 word"
  assumes "sint v \<noteq> - 2147483648"
  shows "sint (- v) = - sint v"
  using assms sint32_bounds [of v]
  by (simp add: sint_word_ariths signed_take_bit_int_eq_self)

lemma sint_sub32:
  fixes a b :: "32 word"
  assumes "- 2147483648 \<le> sint a - sint b" "sint a - sint b < 2147483648"
  shows "sint (a - b) = sint a - sint b"
  using assms by (simp add: sint_word_ariths signed_take_bit_int_eq_self)

lemma sint_add32:
  fixes a b :: "32 word"
  assumes "- 2147483648 \<le> sint a + sint b" "sint a + sint b < 2147483648"
  shows "sint (a + b) = sint a + sint b"
  using assms by (simp add: sint_word_ariths signed_take_bit_int_eq_self)

lemma apply_deadzone_sint:
  assumes "sint v \<noteq> - 2147483648"
  shows "sint (apply_deadzone v dz) = deadzone_spec (sint v) (uint dz)"
proof -
  note b = sint32_bounds [of v]
  note d0 = uint16_bounds [of dz]
  have d: "sint (ucast dz :: 32 word) = uint dz" by (rule sint_ucast_16_32)
  have neg: "sint (- v) = - sint v" using assms by (rule sint_minus32)
  have sub: "sint (v - ucast dz) = sint v - uint dz" if "uint dz < sint v"
    by (subst sint_sub32) (use that b d d0 in linarith)+
  have add: "sint (v + ucast dz) = sint v + uint dz" if "sint v < 0"
    by (subst sint_add32) (use that b d d0 in linarith)+
  show ?thesis
    using sub add
    by (simp add: apply_deadzone_def deadzone_spec_def Let_def word_sless_alt word_sle_eq d neg)
qed

text \<open>
  C5. For every threshold and every value whose negation C defines (every \<^verbatim>\<open>int32_t\<close>
  but \<^verbatim>\<open>INT32_MIN\<close>; a centered value, the difference of a 16-bit sample and a center
  that is a mean of 16-bit samples, is far from it), \<^verbatim>\<open>apply_deadzone\<close> returns zero or
  a value of the same sign, of magnitude \<open>max 0 (\<bar>v\<bar> - d)\<close>: a value one above the
  threshold gives magnitude one. It is the deadzone policy of the specification.
\<close>
theorem apply_deadzone_sign_magnitude:
  assumes "sint v \<noteq> - 2147483648"
  shows "(sint (apply_deadzone v d) = 0 \<or> sgn (sint (apply_deadzone v d)) = sgn (sint v))
       \<and> \<bar>sint (apply_deadzone v d)\<bar> = max 0 (\<bar>sint v\<bar> - uint d)
       \<and> (\<bar>sint v\<bar> = uint d + 1 \<longrightarrow> \<bar>sint (apply_deadzone v d)\<bar> = 1)
       \<and> sint (apply_deadzone v d) = deadzone_spec (sint v) (uint d)"
proof -
  have e: "sint (apply_deadzone v d) = deadzone_spec (sint v) (uint d)"
    using assms by (rule apply_deadzone_sint)
  have d0: "0 \<le> uint d" by (rule uint_nonnegative)
  have 1: "deadzone_spec (sint v) (uint d) = 0 \<or> sgn (deadzone_spec (sint v) (uint d)) = sgn (sint v)"
    using d0 by (auto simp: deadzone_spec_def sgn_if)
  have 2: "\<bar>deadzone_spec (sint v) (uint d)\<bar> = max 0 (\<bar>sint v\<bar> - uint d)"
    using d0 by (auto simp: deadzone_spec_def)
  have 3: "\<bar>sint v\<bar> = uint d + 1 \<longrightarrow> \<bar>deadzone_spec (sint v) (uint d)\<bar> = 1"
    using 2 by auto
  from 1 2 3 show ?thesis unfolding e by simp
qed

theorem apply_deadzone_sign_magnitude_witness:
  "sint (- 51 :: 32 word) \<noteq> - 2147483648
   \<and> \<bar>sint (apply_deadzone (- 51) 50)\<bar> = 1
   \<and> apply_deadzone (- 51) 50 = - 1
   \<and> apply_deadzone 50 50 = 0 \<and> apply_deadzone 51 50 = 1 \<and> apply_deadzone 0 50 = 0"
proof -
  have h: "sint (- 51 :: 32 word) \<noteq> - 2147483648" by simp
  have ev: "apply_deadzone (- 51) 50 = - 1" "apply_deadzone 50 50 = 0"
    "apply_deadzone 51 50 = 1" "apply_deadzone 0 50 = 0"
    by (simp_all add: apply_deadzone_def Let_def word_sless_alt word_sle_eq)
  from apply_deadzone_sign_magnitude [OF h, of 50]
  have "\<bar>sint (apply_deadzone (- 51) 50)\<bar> = max 0 (\<bar>sint (- 51 :: 32 word)\<bar> - uint (50 :: 16 word))"
    by blast
  then have m: "\<bar>sint (apply_deadzone (- 51) 50)\<bar> = 1"
    by simp
  from h m ev show ?thesis
    by (intro conjI)
qed

section \<open>Conditioning of an axis\<close>

lemma sdiv_pos_bounds:
  fixes a k :: int
  assumes "1 \<le> k"
  shows "(0 \<le> a \<longrightarrow> 0 \<le> a sdiv k \<and> a sdiv k \<le> a) \<and> (a \<le> 0 \<longrightarrow> a \<le> a sdiv k \<and> a sdiv k \<le> 0)"
proof -
  have q0: "0 \<le> \<bar>a\<bar> div k"
    using assms by (simp add: pos_imp_zdiv_nonneg_iff)
  have q1: "\<bar>a\<bar> div k \<le> \<bar>a\<bar>"
    using zdiv_mono2 [of "\<bar>a\<bar>" 1 k] assms by simp
  have e: "a sdiv k = sgn a * (\<bar>a\<bar> div k)"
    using assms by (simp add: signed_divide_int_def)
  show ?thesis
  proof (cases "0 \<le> a")
    case True
    then have "a sdiv k = \<bar>a\<bar> div k \<or> a = 0"
      using e by (cases "a = 0") (simp_all add: sgn_if)
    with True q0 q1 show ?thesis by auto
  next
    case False
    then have "a sdiv k = - (\<bar>a\<bar> div k)"
      using e by (simp add: sgn_if)
    with False q0 q1 show ?thesis by auto
  qed
qed

lemma scale_value_sint:
  "sint (scale_value v divisor) = sint v sdiv (if divisor = 0 then 1 else uint divisor)"
proof -
  let ?k = "if divisor = 0 then 1 else uint divisor"
  have k: "sint (ucast (if divisor = 0 then 1 else divisor) :: 32 word) = ?k"
    by (simp add: sint_ucast_16_32)
  have k1: "1 \<le> ?k"
  proof (cases "divisor = 0")
    case True
    then show ?thesis by simp
  next
    case False
    then have "uint divisor \<noteq> 0" by (simp add: uint_0_iff)
    with uint_nonnegative [of divisor] have "1 \<le> uint divisor" by linarith
    with False show ?thesis by simp
  qed
  from sdiv_pos_bounds [OF k1, of "sint v"] sint32_bounds [of v]
  have "- 2147483648 \<le> sint v sdiv ?k \<and> sint v sdiv ?k < 2147483648"
    by (cases "0 \<le> sint v") linarith+
  then have "sint (word_of_int (sint v sdiv ?k) :: 32 word) = sint v sdiv ?k"
    by (intro sint_in_range32) simp_all
  then show ?thesis
    by (simp only: scale_value_def Let_def c_sdiv_def k)
qed

lemma clamp_int16_sint:
  "sint (clamp_int16 v) = max (- 32768) (min 32767 (sint v))"
proof -
  let ?w = "if v \<le>s - 32768 then - 32768 else if v <s 32767 then v else (32767 :: 32 word)"
  have w: "sint ?w = max (- 32768) (min 32767 (sint v))"
    by (simp add: word_sle_eq word_sless_alt)
  have 1: "sint (scast (ucast ?w :: 16 word) :: 32 word) = sint (ucast ?w :: 16 word)"
    by (rule sint_up_scast) (simp add: is_up)
  have 2: "(ucast ?w :: 16 word) = scast ?w"
    by (rule fun_cong [OF down_cast_same]) (simp add: is_down)
  have 3: "sint (scast ?w :: 16 word) = signed_take_bit 15 (sint ?w)"
    by (simp add: signed_scast_eq)
  have 4: "signed_take_bit 15 (sint ?w) = sint ?w"
    by (rule signed_take_bit_int_eq_self) (simp_all only: w, simp_all)
  have 5: "sint (ucast ?w :: 16 word) = sint ?w"
    using 3 4 by (simp only: 2)
  have "sint (scast (ucast ?w :: 16 word) :: 32 word) = sint ?w"
    using 1 5 by (rule trans)
  then show ?thesis
    by (simp only: clamp_int16_def w)
qed

lemma deadzone_spec_bounds:
  assumes "0 \<le> d"
  shows "(0 \<le> v \<longrightarrow> 0 \<le> deadzone_spec v d \<and> deadzone_spec v d \<le> v)
       \<and> (v \<le> 0 \<longrightarrow> v \<le> deadzone_spec v d \<and> deadzone_spec v d \<le> 0)"
  using assms by (auto simp: deadzone_spec_def)

lemma axis_delta_sint:
  assumes lo: "- 2147483648 < sint raw - sint center" and hi: "sint raw - sint center < 2147483648"
  shows "sint (joystick_axis_delta raw center dz divisor iv) =
           (let s = deadzone_spec (sint raw - sint center) (uint dz)
                      sdiv (if uint divisor = 0 then 1 else uint divisor)
            in if iv then - s else s)"
proof -
  let ?c = "scast raw - center :: 32 word"
  let ?k = "if divisor = 0 then 1 else uint divisor"
  have r: "sint (scast raw :: 32 word) = sint raw"
    by (rule sint_up_scast) (simp add: is_up)
  have c: "sint ?c = sint raw - sint center"
    by (subst sint_sub32) (use lo hi r in linarith)+
  then have cne: "sint ?c \<noteq> - 2147483648" using lo by linarith
  have dzv: "sint (apply_deadzone ?c dz) = deadzone_spec (sint raw - sint center) (uint dz)"
    using apply_deadzone_sint [OF cne] c by simp
  have k1: "1 \<le> ?k"
  proof (cases "divisor = 0")
    case True
    then show ?thesis by simp
  next
    case False
    then have "uint divisor \<noteq> 0" by (simp add: uint_0_iff)
    with uint_nonnegative [of divisor] have "1 \<le> uint divisor" by linarith
    with False show ?thesis by simp
  qed
  have keq: "?k = (if uint divisor = 0 then 1 else uint divisor)"
    by (simp add: uint_0_iff)
  let ?s = "deadzone_spec (sint raw - sint center) (uint dz) sdiv ?k"
  have sc: "sint (scale_value (apply_deadzone ?c dz) divisor) = ?s"
    by (simp only: scale_value_sint dzv)
  have "- 2147483648 < ?s"
    using deadzone_spec_bounds [OF uint_nonnegative, of "sint raw - sint center" dz]
      sdiv_pos_bounds [OF k1, of "deadzone_spec (sint raw - sint center) (uint dz)"] lo
    by (cases "0 \<le> sint raw - sint center";
        cases "0 \<le> deadzone_spec (sint raw - sint center) (uint dz)") linarith+
  then have ne: "sint (scale_value (apply_deadzone ?c dz) divisor) \<noteq> - 2147483648"
    using sc by linarith
  have ng: "sint (- scale_value (apply_deadzone ?c dz) divisor) = - ?s"
    by (simp only: sint_minus32 [OF ne] sc)
  show ?thesis
    using sc ng by (simp add: joystick_axis_delta_def Let_def keq)
qed

lemma word32_eq_sint: "(a :: 32 word) = word_of_int (sint a)"
  by simp

lemma clamp_axis_delta:
  assumes lo: "- 2147483648 < sint raw - sint center" and hi: "sint raw - sint center < 2147483648"
  shows "clamp_int16 (joystick_axis_delta raw center dz divisor iv) =
           word_of_int (sample_tick_axis_spec (sint raw) (sint center) (uint dz) (uint divisor) iv)"
    and "joystick_axis_delta raw center dz divisor iv = 0 \<longleftrightarrow>
           sample_tick_axis_spec (sint raw) (sint center) (uint dz) (uint divisor) iv = 0"
proof -
  let ?d = "joystick_axis_delta raw center dz divisor iv"
  have s: "sint (clamp_int16 ?d) =
      sample_tick_axis_spec (sint raw) (sint center) (uint dz) (uint divisor) iv"
    by (simp add: clamp_int16_sint axis_delta_sint [OF lo hi] sample_tick_axis_spec_def Let_def)
  show "clamp_int16 ?d =
      word_of_int (sample_tick_axis_spec (sint raw) (sint center) (uint dz) (uint divisor) iv)"
    using word32_eq_sint [of "clamp_int16 ?d"] by (simp only: s)
  have "?d = 0 \<longleftrightarrow> sint ?d = 0" by (simp add: signed_eq_0_iff)
  also have "\<dots> \<longleftrightarrow> max (- 32768) (min 32767 (sint ?d)) = 0" by auto
  also have "\<dots> \<longleftrightarrow> sample_tick_axis_spec (sint raw) (sint center) (uint dz) (uint divisor) iv = 0"
    by (simp add: axis_delta_sint [OF lo hi] sample_tick_axis_spec_def Let_def)
  finally show "?d = 0 \<longleftrightarrow>
      sample_tick_axis_spec (sint raw) (sint center) (uint dz) (uint divisor) iv = 0" .
qed

lemma clamp_int16_eq_0: "clamp_int16 v = 0 \<longleftrightarrow> v = 0"
proof -
  have "clamp_int16 v = 0 \<longleftrightarrow> sint (clamp_int16 v) = 0" by (simp add: signed_eq_0_iff)
  also have "\<dots> \<longleftrightarrow> sint v = 0" by (auto simp: clamp_int16_sint)
  also have "\<dots> \<longleftrightarrow> v = 0" by (simp add: signed_eq_0_iff)
  finally show ?thesis .
qed

section \<open>Ticks of the two drivers\<close>

lemma read_axis_cases:
  assumes "joystick_read_axis e ch out lg = ((err, v), lg')"
  shows "(err < 0 \<and> v = out \<and> lg' = lg @ [AdcSequenceInit ch err])
       \<or> (err < 0 \<and> v = out \<and> (\<exists>i b. 0 \<le> i \<and> lg' = lg @ [AdcSequenceInit ch i, AdcRead ch err b]))
       \<or> (err = 0 \<and> (\<exists>i r. 0 \<le> i \<and> 0 \<le> r \<and> lg' = lg @ [AdcSequenceInit ch i, AdcRead ch r v]))"
  using assms
  by (auto simp: joystick_read_axis_def Let_def split: if_splits prod.splits)

lemma work_cb_success:
  assumes "joystick_read_axis e X_ADC 0 lg = ((0, raw_x), lg1)"
    and "joystick_read_axis e Y_ADC 0 lg1 = ((0, raw_y), lg2)"
  shows "joystick_work_cb e cfg data lg =
     joystick_report
       (joystick_axis_delta raw_x (center_x data) (deadzone cfg) (scale_divisor cfg) (invert_x cfg))
       (joystick_axis_delta raw_y (center_y data) (deadzone cfg) (scale_divisor cfg) (invert_y cfg))
       lg2
     @ [WorkSchedule (unat (poll_interval_or_default (poll_interval_ms cfg)))]"
  using assms
  by (simp add: joystick_work_cb_def joystick_axis_delta_def Let_def)

lemma poll_interval_unat:
  "unat (poll_interval_or_default t) = (if t = 0 then 10 else unat t)"
  by (simp add: poll_interval_or_default_def word_greater_zero_iff)

lemma joystick_report_eq:
  "joystick_report dx dy lg =
     lg @ (if dx \<noteq> 0 then [InputReport INPUT_REL_X (clamp_int16 dx) (dy = 0)] else [])
        @ (if dy \<noteq> 0 then [InputReport INPUT_REL_Y (clamp_int16 dy) True] else [])"
  by (simp add: joystick_report_def Let_def)

lemma read_axis_log:
  assumes "joystick_read_axis e ch out lg = ((err, v), lg')"
  shows "(err < 0 \<or> err = 0) \<and> (\<exists>tr. lg' = lg @ tr \<and> \<not> list_ex is_schedule tr)"
  using read_axis_cases [OF assms] by auto

lemma work_cb_fail_x:
  assumes "joystick_read_axis e X_ADC 0 lg = ((ex, raw_x), lg1)" and "ex < 0"
  shows "joystick_work_cb e cfg data lg =
     lg1 @ [WorkSchedule (unat (poll_interval_or_default (poll_interval_ms cfg)))]"
  using assms by (simp add: joystick_work_cb_def Let_def)

lemma work_cb_fail_y:
  assumes "joystick_read_axis e X_ADC 0 lg = ((0, raw_x), lg1)"
    and "joystick_read_axis e Y_ADC 0 lg1 = ((ey, raw_y), lg2)" and "ey < 0"
  shows "joystick_work_cb e cfg data lg =
     lg2 @ [WorkSchedule (unat (poll_interval_or_default (poll_interval_ms cfg)))]"
  using assms by (simp add: joystick_work_cb_def Let_def)

lemma work_cb_schedule:
  "\<exists>tr. joystick_work_cb e cfg data lg =
      lg @ tr @ [WorkSchedule (if poll_interval_ms cfg = 0 then 10 else unat (poll_interval_ms cfg))]
    \<and> \<not> list_ex is_schedule tr"
proof -
  obtain ex rx l1 where x: "joystick_read_axis e X_ADC 0 lg = ((ex, rx), l1)"
    by (metis prod.exhaust)
  obtain ey ry l2 where y: "joystick_read_axis e Y_ADC 0 l1 = ((ey, ry), l2)"
    by (metis prod.exhaust)
  from read_axis_log [OF x] obtain t1 where
    t1: "l1 = lg @ t1" "\<not> list_ex is_schedule t1" and ex: "ex < 0 \<or> ex = 0" by blast
  from read_axis_log [OF y] obtain t2 where
    t2: "l2 = l1 @ t2" "\<not> list_ex is_schedule t2" and ey: "ey < 0 \<or> ey = 0" by blast
  show ?thesis
  proof (cases "ex < 0")
    case True
    from work_cb_fail_x [OF x True] t1 show ?thesis
      by (auto simp: poll_interval_unat)
  next
    case False
    with ex have ex0: "ex = 0" by simp
    show ?thesis
    proof (cases "ey < 0")
      case True
      from work_cb_fail_y [OF x [unfolded ex0] y True] t1 t2 show ?thesis
        by (auto simp: poll_interval_unat)
    next
      case False
      with ey have ey0: "ey = 0" by simp
      from work_cb_success [OF x [unfolded ex0] y [unfolded ey0]] t1 t2 show ?thesis
        by (auto simp: poll_interval_unat joystick_report_eq list_ex_iff)
    qed
  qed
qed

lemma read_motion_no_schedule:
  assumes "pmw3360_read_motion e dx0 dy0 lg = ((ok, dx, dy), lg')"
  shows "\<exists>tr. lg' = lg @ tr \<and> \<not> list_ex is_schedule tr \<and> \<not> list_ex (is_report c) tr"
  using assms
  unfolding pmw3360_read_motion_def Let_def
  by (auto split: if_splits prod.splits dest!: reg_read_cases
      simp: reg_addr_simps read_transaction_def)

lemma work_handler_eq:
  assumes "pmw3360_read_motion e 0 0 lg = ((ok, dx, dy), lg1)"
  shows "pmw3360_work_handler e cfg lg =
     lg1 @ (if ok \<and> (dx \<noteq> 0 \<or> dy \<noteq> 0)
            then [InputReport INPUT_REL_X (scast dx) False, InputReport INPUT_REL_Y (scast dy) True]
            else [])
         @ [WorkSchedule (unat (polling_interval_ms cfg))]"
  using assms by (simp add: pmw3360_work_handler_def Let_def)

lemma work_handler_schedule:
  "\<exists>tr. pmw3360_work_handler e cfg lg = lg @ tr @ [WorkSchedule (unat (polling_interval_ms cfg))]
     \<and> \<not> list_ex is_schedule tr"
proof -
  obtain ok dx dy l1 where m: "pmw3360_read_motion e 0 0 lg = ((ok, dx, dy), l1)"
    by (metis prod.exhaust)
  from read_motion_no_schedule [OF m, of INPUT_REL_X] obtain tr where
    tr: "l1 = lg @ tr" "\<not> list_ex is_schedule tr" by blast
  show ?thesis
    unfolding work_handler_eq [OF m] tr(1) using tr(2)
    by (auto simp: list_ex_iff)
qed

lemma work_cb_example:
  "joystick_work_cb (adc_env [(0, 600)] [(0, 500)])
      \<lparr>poll_interval_ms = 10, deadzone = 50, scale_divisor = 10, invert_x = False, invert_y = False\<rparr>
      \<lparr>dev = Some 0, center_x = 500, center_y = 500\<rparr> [] =
   [AdcSequenceInit X_ADC 0, AdcRead X_ADC 0 600, AdcSequenceInit Y_ADC 0, AdcRead Y_ADC 0 500,
    InputReport INPUT_REL_X 5 True, WorkSchedule 10]"
  by (simp add: joystick_work_cb_def joystick_read_axis_def adc_env_def count_reads_def Let_def
      apply_deadzone_def scale_value_def c_sdiv_def signed_divide_int_def joystick_report_def
      clamp_int16_def poll_interval_or_default_def word_sless_alt word_sle_eq)

lemma read_axis_example:
  "joystick_read_axis (adc_env [(0, 600)] [(0, 500)]) X_ADC 0 [] =
     ((0, 600), [AdcSequenceInit X_ADC 0, AdcRead X_ADC 0 600])"
  "joystick_read_axis (adc_env [(0, 600)] [(0, 500)]) Y_ADC 0
       [AdcSequenceInit X_ADC 0, AdcRead X_ADC 0 600] =
     ((0, 500), [AdcSequenceInit X_ADC 0, AdcRead X_ADC 0 600,
                 AdcSequenceInit Y_ADC 0, AdcRead Y_ADC 0 500])"
  by (simp_all add: joystick_read_axis_def adc_env_def count_reads_def Let_def)

lemma spec_example:
  "sample_tick_axis_spec 600 500 50 10 False = 5"
  "sample_tick_axis_spec 500 500 50 10 False = 0"
  by (simp_all add: sample_tick_axis_spec_def deadzone_spec_def signed_divide_int_def Let_def)

text \<open>
  C6. On a tick whose two reads succeed, the events are those of the specification's
  conditioning of each axis (center, deadzone, division by the effective divisor, inversion,
  clamp), computed on the integers, provided \<open>raw - center\<close> fits \<^verbatim>\<open>int32_t\<close> and is
  not \<^verbatim>\<open>INT32_MIN\<close>. With center (500, 500), deadzone 50, divisor 10, no inversion and
  the reading (600, 500), the tick reports one event, relative X with value 5, and no Y
  event.
\<close>
theorem work_cb_conditioning:
  assumes "joystick_read_axis e X_ADC 0 lg = ((0, raw_x), lg1)"
    and "joystick_read_axis e Y_ADC 0 lg1 = ((0, raw_y), lg2)"
    and "- 2147483648 < sint raw_x - sint (center_x data)"
    and "sint raw_x - sint (center_x data) < 2147483648"
    and "- 2147483648 < sint raw_y - sint (center_y data)"
    and "sint raw_y - sint (center_y data) < 2147483648"
  shows "(let sx = sample_tick_axis_spec (sint raw_x) (sint (center_x data))
                     (uint (deadzone cfg)) (uint (scale_divisor cfg)) (invert_x cfg);
              sy = sample_tick_axis_spec (sint raw_y) (sint (center_y data))
                     (uint (deadzone cfg)) (uint (scale_divisor cfg)) (invert_y cfg)
          in joystick_work_cb e cfg data lg =
               lg2 @ (if sx \<noteq> 0 then [InputReport INPUT_REL_X (word_of_int sx) (sy = 0)] else [])
                   @ (if sy \<noteq> 0 then [InputReport INPUT_REL_Y (word_of_int sy) True] else [])
                   @ [WorkSchedule (unat (poll_interval_or_default (poll_interval_ms cfg)))])
    \<and> joystick_work_cb (adc_env [(0, 600)] [(0, 500)])
         \<lparr>poll_interval_ms = 10, deadzone = 50, scale_divisor = 10, invert_x = False, invert_y = False\<rparr>
         \<lparr>dev = Some 0, center_x = 500, center_y = 500\<rparr> [] =
       [AdcSequenceInit X_ADC 0, AdcRead X_ADC 0 600, AdcSequenceInit Y_ADC 0, AdcRead Y_ADC 0 500,
        InputReport INPUT_REL_X 5 True, WorkSchedule 10]
    \<and> sample_tick_axis_spec 600 500 50 10 False = 5
    \<and> sample_tick_axis_spec 500 500 50 10 False = 0"
proof -
  note x = clamp_axis_delta [OF assms(3,4), of "deadzone cfg" "scale_divisor cfg" "invert_x cfg"]
  note y = clamp_axis_delta [OF assms(5,6), of "deadzone cfg" "scale_divisor cfg" "invert_y cfg"]
  have "joystick_work_cb e cfg data lg =
      lg2 @ (if sample_tick_axis_spec (sint raw_x) (sint (center_x data))
                     (uint (deadzone cfg)) (uint (scale_divisor cfg)) (invert_x cfg) \<noteq> 0
             then [InputReport INPUT_REL_X (word_of_int (sample_tick_axis_spec (sint raw_x) (sint (center_x data))
                     (uint (deadzone cfg)) (uint (scale_divisor cfg)) (invert_x cfg)))
                    (sample_tick_axis_spec (sint raw_y) (sint (center_y data))
                     (uint (deadzone cfg)) (uint (scale_divisor cfg)) (invert_y cfg) = 0)] else [])
          @ (if sample_tick_axis_spec (sint raw_y) (sint (center_y data))
                     (uint (deadzone cfg)) (uint (scale_divisor cfg)) (invert_y cfg) \<noteq> 0
             then [InputReport INPUT_REL_Y (word_of_int (sample_tick_axis_spec (sint raw_y) (sint (center_y data))
                     (uint (deadzone cfg)) (uint (scale_divisor cfg)) (invert_y cfg))) True] else [])
          @ [WorkSchedule (unat (poll_interval_or_default (poll_interval_ms cfg)))]"
    unfolding work_cb_success [OF assms(1,2)] joystick_report_eq x y by simp
  then show ?thesis
    using work_cb_example spec_example by (simp add: Let_def)
qed

theorem work_cb_conditioning_witness:
  "joystick_read_axis (adc_env [(0, 600)] [(0, 500)]) X_ADC 0 [] =
     ((0, 600), [AdcSequenceInit X_ADC 0, AdcRead X_ADC 0 600])
   \<and> joystick_read_axis (adc_env [(0, 600)] [(0, 500)]) Y_ADC 0
       [AdcSequenceInit X_ADC 0, AdcRead X_ADC 0 600] =
     ((0, 500), [AdcSequenceInit X_ADC 0, AdcRead X_ADC 0 600,
                 AdcSequenceInit Y_ADC 0, AdcRead Y_ADC 0 500])
   \<and> sint (600 :: 16 word) - sint (500 :: 32 word) = 100
   \<and> sint (500 :: 16 word) - sint (500 :: 32 word) = 0
   \<and> joystick_work_cb (adc_env [(0, 600)] [(0, 500)])
         \<lparr>poll_interval_ms = 0, deadzone = 50, scale_divisor = 10, invert_x = True, invert_y = False\<rparr>
         \<lparr>dev = Some 0, center_x = 500, center_y = 500\<rparr> [] =
       [AdcSequenceInit X_ADC 0, AdcRead X_ADC 0 600, AdcSequenceInit Y_ADC 0, AdcRead Y_ADC 0 500,
        InputReport INPUT_REL_X (- 5) True, WorkSchedule 10]"
proof -
  let ?data = "\<lparr>dev = Some 0, center_x = 500, center_y = 500\<rparr>"
  have b: "- 2147483648 < sint (600 :: 16 word) - sint (center_x ?data)"
    "sint (600 :: 16 word) - sint (center_x ?data) < 2147483648"
    "- 2147483648 < sint (500 :: 16 word) - sint (center_y ?data)"
    "sint (500 :: 16 word) - sint (center_y ?data) < 2147483648"
    by simp_all
  have s: "sample_tick_axis_spec 600 500 50 10 True = - 5"
    by (simp add: sample_tick_axis_spec_def deadzone_spec_def signed_divide_int_def Let_def)
  from work_cb_conditioning [OF read_axis_example b,
      of "\<lparr>poll_interval_ms = 0, deadzone = 50, scale_divisor = 10, invert_x = True, invert_y = False\<rparr>"]
  have "joystick_work_cb (adc_env [(0, 600)] [(0, 500)])
         \<lparr>poll_interval_ms = 0, deadzone = 50, scale_divisor = 10, invert_x = True, invert_y = False\<rparr>
         ?data [] =
       [AdcSequenceInit X_ADC 0, AdcRead X_ADC 0 600, AdcSequenceInit Y_ADC 0, AdcRead Y_ADC 0 500,
        InputReport INPUT_REL_X (- 5) True, WorkSchedule 10]"
    by (simp add: Let_def s spec_example poll_interval_or_default_def)
  with read_axis_example show ?thesis by simp
qed

lemma work_handler_example_x_only:
  "pmw3360_read_motion (sensor_env (regs_of [(0x02, 0x80), (0x03, 0x05)]) {}) 0 0 [] =
     ((True, 5, 0),
      read_transaction 0x02 0 0x80 @ read_transaction 0x03 0 0x05 @ read_transaction 0x04 0 0
        @ read_transaction 0x05 0 0 @ read_transaction 0x06 0 0)"
  by (simp add: pmw3360_read_motion_def pmw3360_reg_read_def sensor_env_def regs_of_def
      reg_addr_simps Let_def last_addr_def read_transaction_def)

text \<open>
  C1, as the code has it. In the joystick driver, on a tick whose reads succeed with
  deltas \<open>jdx\<close> and \<open>jdy\<close>: an X event is reported exactly when \<open>jdx \<noteq> 0\<close>, a Y event
  exactly when \<open>jdy \<noteq> 0\<close>; when both are non-zero the X event says that more follows and
  the Y event closes the batch; a single event closes the batch itself; no event has the
  value 0. In the sensor driver, on a tick whose sample is a motion \<open>(dx, dy)\<close>: nothing
  is reported when both are zero; otherwise both events are reported, X with \<open>dx\<close>
  saying that more follows and Y with \<open>dy\<close> closing the batch, also when one of the two
  values is zero.
\<close>
theorem tick_events:
  "(pmw3360_read_motion e 0 0 lg = ((True, dx, dy), lgm) \<longrightarrow>
      pmw3360_work_handler e cfg lg =
        lgm @ (if dx = 0 \<and> dy = 0 then []
               else [InputReport INPUT_REL_X (scast dx) False, InputReport INPUT_REL_Y (scast dy) True])
            @ [WorkSchedule (unat (polling_interval_ms cfg))])
   \<and> (joystick_read_axis e X_ADC 0 lg = ((0, raw_x), lga)
        \<and> joystick_read_axis e Y_ADC 0 lga = ((0, raw_y), lgb)
        \<and> jdx = joystick_axis_delta raw_x (center_x data) (deadzone jcfg) (scale_divisor jcfg) (invert_x jcfg)
        \<and> jdy = joystick_axis_delta raw_y (center_y data) (deadzone jcfg) (scale_divisor jcfg) (invert_y jcfg)
      \<longrightarrow> (\<exists>evs. joystick_work_cb e jcfg data lg =
                   lgb @ evs @ [WorkSchedule (unat (poll_interval_or_default (poll_interval_ms jcfg)))]
            \<and> (list_ex (is_report INPUT_REL_X) evs \<longleftrightarrow> jdx \<noteq> 0)
            \<and> (list_ex (is_report INPUT_REL_Y) evs \<longleftrightarrow> jdy \<noteq> 0)
            \<and> (jdx \<noteq> 0 \<and> jdy \<noteq> 0 \<longrightarrow>
                 evs = [InputReport INPUT_REL_X (clamp_int16 jdx) False,
                        InputReport INPUT_REL_Y (clamp_int16 jdy) True])
            \<and> (jdx \<noteq> 0 \<and> jdy = 0 \<longrightarrow> evs = [InputReport INPUT_REL_X (clamp_int16 jdx) True])
            \<and> (jdx = 0 \<and> jdy \<noteq> 0 \<longrightarrow> evs = [InputReport INPUT_REL_Y (clamp_int16 jdy) True])
            \<and> (\<forall>c s. InputReport c 0 s \<notin> set evs)))"
proof (intro conjI impI)
  assume "pmw3360_read_motion e 0 0 lg = ((True, dx, dy), lgm)"
  from work_handler_eq [OF this]
  show "pmw3360_work_handler e cfg lg =
        lgm @ (if dx = 0 \<and> dy = 0 then []
               else [InputReport INPUT_REL_X (scast dx) False, InputReport INPUT_REL_Y (scast dy) True])
            @ [WorkSchedule (unat (polling_interval_ms cfg))]"
    by simp
next
  assume a: "joystick_read_axis e X_ADC 0 lg = ((0, raw_x), lga)
        \<and> joystick_read_axis e Y_ADC 0 lga = ((0, raw_y), lgb)
        \<and> jdx = joystick_axis_delta raw_x (center_x data) (deadzone jcfg) (scale_divisor jcfg) (invert_x jcfg)
        \<and> jdy = joystick_axis_delta raw_y (center_y data) (deadzone jcfg) (scale_divisor jcfg) (invert_y jcfg)"
  let ?evs = "(if jdx \<noteq> 0 then [InputReport INPUT_REL_X (clamp_int16 jdx) (jdy = 0)] else [])
        @ (if jdy \<noteq> 0 then [InputReport INPUT_REL_Y (clamp_int16 jdy) True] else [])"
  from a have run: "joystick_work_cb e jcfg data lg =
      lgb @ ?evs @ [WorkSchedule (unat (poll_interval_or_default (poll_interval_ms jcfg)))]"
    using work_cb_success [of e lg raw_x lga raw_y lgb jcfg data]
    by (simp add: joystick_report_eq)
  have "(list_ex (is_report INPUT_REL_X) ?evs \<longleftrightarrow> jdx \<noteq> 0)
        \<and> (list_ex (is_report INPUT_REL_Y) ?evs \<longleftrightarrow> jdy \<noteq> 0)
        \<and> (jdx \<noteq> 0 \<and> jdy \<noteq> 0 \<longrightarrow>
                 ?evs = [InputReport INPUT_REL_X (clamp_int16 jdx) False,
                        InputReport INPUT_REL_Y (clamp_int16 jdy) True])
        \<and> (jdx \<noteq> 0 \<and> jdy = 0 \<longrightarrow> ?evs = [InputReport INPUT_REL_X (clamp_int16 jdx) True])
        \<and> (jdx = 0 \<and> jdy \<noteq> 0 \<longrightarrow> ?evs = [InputReport INPUT_REL_Y (clamp_int16 jdy) True])
        \<and> (\<forall>c s. InputReport c 0 s \<notin> set ?evs)"
    by (auto simp: clamp_int16_eq_0)
  with run show "\<exists>evs. joystick_work_cb e jcfg data lg =
                   lgb @ evs @ [WorkSchedule (unat (poll_interval_or_default (poll_interval_ms jcfg)))]
            \<and> (list_ex (is_report INPUT_REL_X) evs \<longleftrightarrow> jdx \<noteq> 0)
            \<and> (list_ex (is_report INPUT_REL_Y) evs \<longleftrightarrow> jdy \<noteq> 0)
            \<and> (jdx \<noteq> 0 \<and> jdy \<noteq> 0 \<longrightarrow>
                 evs = [InputReport INPUT_REL_X (clamp_int16 jdx) False,
                        InputReport INPUT_REL_Y (clamp_int16 jdy) True])
            \<and> (jdx \<noteq> 0 \<and> jdy = 0 \<longrightarrow> evs = [InputReport INPUT_REL_X (clamp_int16 jdx) True])
            \<and> (jdx = 0 \<and> jdy \<noteq> 0 \<longrightarrow> evs = [InputReport INPUT_REL_Y (clamp_int16 jdy) True])
            \<and> (\<forall>c s. InputReport c 0 s \<notin> set evs)"
    by blast
qed

lemma axis_delta_example:
  "joystick_axis_delta 600 500 50 10 False = 5"
  "joystick_axis_delta 500 500 50 10 False = 0"
  by (simp_all add: joystick_axis_delta_def apply_deadzone_def scale_value_def c_sdiv_def
      signed_divide_int_def Let_def word_sless_alt word_sle_eq)

theorem tick_events_witness:
  "pmw3360_read_motion
      (sensor_env (regs_of [(0x02, 0x80), (0x03, 0x10), (0x04, 0x00), (0x05, 0xF0), (0x06, 0xFF)]) {})
      0 0 [] =
     ((True, 16, - 16),
      read_transaction 0x02 0 0x80 @ read_transaction 0x03 0 0x10 @ read_transaction 0x04 0 0x00
        @ read_transaction 0x05 0 0xF0 @ read_transaction 0x06 0 0xFF)
   \<and> pmw3360_work_handler
      (sensor_env (regs_of [(0x02, 0x80), (0x03, 0x10), (0x04, 0x00), (0x05, 0xF0), (0x06, 0xFF)]) {})
      \<lparr>polling_interval_ms = 4, cpi = 500\<rparr> [] =
      read_transaction 0x02 0 0x80 @ read_transaction 0x03 0 0x10 @ read_transaction 0x04 0 0x00
        @ read_transaction 0x05 0 0xF0 @ read_transaction 0x06 0 0xFF
        @ [InputReport INPUT_REL_X 16 False, InputReport INPUT_REL_Y (- 16) True, WorkSchedule 4]
   \<and> joystick_read_axis (adc_env [(0, 600)] [(0, 500)]) X_ADC 0 [] =
        ((0, 600), [AdcSequenceInit X_ADC 0, AdcRead X_ADC 0 600])
   \<and> joystick_read_axis (adc_env [(0, 600)] [(0, 500)]) Y_ADC 0
          [AdcSequenceInit X_ADC 0, AdcRead X_ADC 0 600] =
        ((0, 500), [AdcSequenceInit X_ADC 0, AdcRead X_ADC 0 600,
                    AdcSequenceInit Y_ADC 0, AdcRead Y_ADC 0 500])
   \<and> joystick_axis_delta 600 500 50 10 False = 5
   \<and> joystick_axis_delta 500 500 50 10 False = 0
   \<and> (\<exists>evs. joystick_work_cb (adc_env [(0, 600)] [(0, 500)])
          \<lparr>poll_interval_ms = 10, deadzone = 50, scale_divisor = 10, invert_x = False, invert_y = False\<rparr>
          \<lparr>dev = Some 0, center_x = 500, center_y = 500\<rparr> [] =
        [AdcSequenceInit X_ADC 0, AdcRead X_ADC 0 600, AdcSequenceInit Y_ADC 0, AdcRead Y_ADC 0 500]
          @ evs @ [WorkSchedule 10]
        \<and> list_ex (is_report INPUT_REL_X) evs \<and> \<not> list_ex (is_report INPUT_REL_Y) evs)"
proof -
  from tick_events [of
      "sensor_env (regs_of [(0x02, 0x80), (0x03, 0x10), (0x04, 0x00), (0x05, 0xF0), (0x06, 0xFF)]) {}"
      "[]" 16 "- 16" _ "\<lparr>polling_interval_ms = 4, cpi = 500\<rparr>"] read_motion_example_set
  have s: "pmw3360_work_handler
      (sensor_env (regs_of [(0x02, 0x80), (0x03, 0x10), (0x04, 0x00), (0x05, 0xF0), (0x06, 0xFF)]) {})
      \<lparr>polling_interval_ms = 4, cpi = 500\<rparr> [] =
      read_transaction 0x02 0 0x80 @ read_transaction 0x03 0 0x10 @ read_transaction 0x04 0 0x00
        @ read_transaction 0x05 0 0xF0 @ read_transaction 0x06 0 0xFF
        @ [InputReport INPUT_REL_X 16 False, InputReport INPUT_REL_Y (- 16) True, WorkSchedule 4]"
    by simp
  let ?cfg = "\<lparr>poll_interval_ms = 10, deadzone = 50, scale_divisor = 10,
                invert_x = False, invert_y = False\<rparr>"
  let ?data = "\<lparr>dev = Some 0, center_x = 500, center_y = 500\<rparr>"
  from tick_events [where e = "adc_env [(0, 600)] [(0, 500)]" and lg = "[]"
      and raw_x = 600 and raw_y = 500 and jcfg = ?cfg and data = ?data
      and lga = "[AdcSequenceInit X_ADC 0, AdcRead X_ADC 0 600]"
      and lgb = "[AdcSequenceInit X_ADC 0, AdcRead X_ADC 0 600,
                 AdcSequenceInit Y_ADC 0, AdcRead Y_ADC 0 500]"
      and jdx = 5 and jdy = 0]
    read_axis_example axis_delta_example
  have j: "\<exists>evs. joystick_work_cb (adc_env [(0, 600)] [(0, 500)]) ?cfg ?data [] =
        [AdcSequenceInit X_ADC 0, AdcRead X_ADC 0 600, AdcSequenceInit Y_ADC 0, AdcRead Y_ADC 0 500]
          @ evs @ [WorkSchedule 10]
        \<and> list_ex (is_report INPUT_REL_X) evs \<and> \<not> list_ex (is_report INPUT_REL_Y) evs"
    by (simp add: poll_interval_or_default_def)
  from s j read_motion_example_set read_axis_example axis_delta_example show ?thesis
    by (intro conjI)
qed

theorem tick_events_counterexample:
  "fst (pmw3360_read_motion (sensor_env (regs_of [(0x02, 0x80), (0x03, 0x05)]) {}) 0 0 []) = (True, 5, 0)
   \<and> pmw3360_work_handler (sensor_env (regs_of [(0x02, 0x80), (0x03, 0x05)]) {})
        \<lparr>polling_interval_ms = 4, cpi = 500\<rparr> [] =
      read_transaction 0x02 0 0x80 @ read_transaction 0x03 0 0x05 @ read_transaction 0x04 0 0
        @ read_transaction 0x05 0 0 @ read_transaction 0x06 0 0
        @ [InputReport INPUT_REL_X 5 False, InputReport INPUT_REL_Y 0 True, WorkSchedule 4]"
  by (simp add: work_handler_eq [OF work_handler_example_x_only] work_handler_example_x_only)

text \<open>
  C3, as the code has it. Every tick of either driver ends with exactly one reschedule,
  on every path, failed reads included. The joystick reschedules after the configured
  interval, or after 10 when that is zero. The sensor driver reschedules after the
  configured interval as it is: a configured zero is not replaced.
\<close>
theorem tick_reschedules:
  "(\<exists>tr. joystick_work_cb e jcfg data lg =
      lg @ tr @ [WorkSchedule (if poll_interval_ms jcfg = 0 then 10 else unat (poll_interval_ms jcfg))]
      \<and> \<not> list_ex is_schedule tr)
   \<and> (\<exists>tr. pmw3360_work_handler e cfg lg = lg @ tr @ [WorkSchedule (unat (polling_interval_ms cfg))]
      \<and> \<not> list_ex is_schedule tr)"
  using work_cb_schedule work_handler_schedule by (intro conjI)

theorem tick_reschedules_witness:
  "joystick_work_cb (adc_env [(- 5, 0)] []) 
      \<lparr>poll_interval_ms = 0, deadzone = 100, scale_divisor = 128, invert_x = False, invert_y = False\<rparr>
      \<lparr>dev = Some 0, center_x = 0, center_y = 0\<rparr> [] =
     [AdcSequenceInit X_ADC 0, AdcRead X_ADC (- 5) 0, WorkSchedule 10]
   \<and> pmw3360_work_handler read_fail_env \<lparr>polling_interval_ms = 4, cpi = 500\<rparr> [] =
     [SpiWrite [0x02] 0, BusyWait 160, SpiRead (- 5) 0xEE, SpiRelease, BusyWait 19, WorkSchedule 4]"
  using tick_reschedules [of "adc_env [(- 5, 0)] []"
      "\<lparr>poll_interval_ms = 0, deadzone = 100, scale_divisor = 128, invert_x = False, invert_y = False\<rparr>"
      "\<lparr>dev = Some 0, center_x = 0, center_y = 0\<rparr>" "[]"]
  by (simp add: joystick_work_cb_def joystick_read_axis_def adc_env_def count_reads_def Let_def
      poll_interval_or_default_def pmw3360_work_handler_def pmw3360_read_motion_def
      pmw3360_reg_read_def read_fail_env_def EIO_def reg_addr_simps)

theorem tick_reschedules_counterexample:
  "pmw3360_work_handler (sensor_env (regs_of []) {}) \<lparr>polling_interval_ms = 0, cpi = 500\<rparr> [] =
     read_transaction 0x02 0 0 @ [WorkSchedule 0]"
  by (simp add: pmw3360_work_handler_def pmw3360_read_motion_def pmw3360_reg_read_def sensor_env_def
      regs_of_def reg_addr_simps Let_def last_addr_def read_transaction_def)

section \<open>Calibration\<close>

lemma calibrate_loop_done:
  "\<not> i < 8 \<Longrightarrow> calibrate_loop e i sx sy lg = (Inr (sx, sy), lg)"
  by (simp add: calibrate_loop.simps)

lemma calibrate_loop_step:
  assumes "i < 8"
    and "joystick_read_axis e X_ADC 0 lg = ((ex, rx), l1)"
    and "joystick_read_axis e Y_ADC 0 l1 = ((ey, ry), l2)"
  shows "calibrate_loop e i sx sy lg =
     (if ex < 0 then (Inl ex, l1)
      else if ey < 0 then (Inl ey, l2)
      else calibrate_loop e (i + 1) (sx + scast rx) (sy + scast ry) (l2 @ [Sleep 2]))"
  using assms by (subst calibrate_loop.simps) (simp add: Let_def)

lemma calibrate_loop_spec:
  assumes "calibrate_loop e i sx sy lg = (res, lg')" and "i \<le> 8"
  shows "case res of
      Inl err \<Rightarrow> err < 0 \<and> (\<exists>tr c. lg' = lg @ tr @ [c] \<and> \<not> list_ex adc_failed tr
                     \<and> (\<exists>ch. c = AdcSequenceInit ch err \<or> (\<exists>v. c = AdcRead ch err v)))
    | Inr (sx', sy') \<Rightarrow> (\<exists>ps. length ps = 8 - i \<and> list_all pair_ok ps
                     \<and> lg' = lg @ concat (map pair_calls ps)
                     \<and> sx' = sx + sum_list (map (\<lambda>p. scast (x_raw p)) ps)
                     \<and> sy' = sy + sum_list (map (\<lambda>p. scast (y_raw p)) ps))"
  using assms
proof (induction "8 - i" arbitrary: i sx sy lg)
  case 0
  then have "\<not> i < 8" by simp
  from calibrate_loop_done [OF this] 0 show ?case by auto
next
  case (Suc n)
  then have i: "i < 8" by simp
  obtain ex rx l1 where x: "joystick_read_axis e X_ADC 0 lg = ((ex, rx), l1)"
    by (metis prod.exhaust)
  obtain ey ry l2 where y: "joystick_read_axis e Y_ADC 0 l1 = ((ey, ry), l2)"
    by (metis prod.exhaust)
  note step = calibrate_loop_step [OF i x y, of sx sy]
  show ?case
  proof (cases "ex < 0")
    case True
    with step Suc.prems have r: "res = Inl ex" "lg' = l1" by simp_all
    from read_axis_cases [OF x] True show ?thesis
      unfolding r by (auto simp: list_ex_iff intro: exI [of _ "[]"])
  next
    case xok: False
    with read_axis_cases [OF x] obtain ix rrx where
      lx: "0 \<le> ix" "0 \<le> rrx" "l1 = lg @ [AdcSequenceInit X_ADC ix, AdcRead X_ADC rrx rx]" by auto
    show ?thesis
    proof (cases "ey < 0")
      case True
      with step xok Suc.prems have r: "res = Inl ey" "lg' = l2" by simp_all
      from read_axis_cases [OF y] True show ?thesis
        unfolding r
      proof (elim disjE conjE exE)
        assume "l2 = l1 @ [AdcSequenceInit Y_ADC ey]"
        with lx True show "case Inl ey of
            Inl err \<Rightarrow> err < 0 \<and> (\<exists>tr c. l2 = lg @ tr @ [c] \<and> \<not> list_ex adc_failed tr
                     \<and> (\<exists>ch. c = AdcSequenceInit ch err \<or> (\<exists>v. c = AdcRead ch err v)))
          | Inr (sx', sy') \<Rightarrow> (\<exists>ps. length ps = 8 - i \<and> list_all pair_ok ps
                     \<and> l2 = lg @ concat (map pair_calls ps)
                     \<and> sx' = sx + sum_list (map (\<lambda>p. scast (x_raw p)) ps)
                     \<and> sy' = sy + sum_list (map (\<lambda>p. scast (y_raw p)) ps))"
          by (auto intro!: exI [of _ "[AdcSequenceInit X_ADC ix, AdcRead X_ADC rrx rx]"])
      next
        fix iy b assume "0 \<le> iy" "l2 = l1 @ [AdcSequenceInit Y_ADC iy, AdcRead Y_ADC ey b]"
        with lx True show "case Inl ey of
            Inl err \<Rightarrow> err < 0 \<and> (\<exists>tr c. l2 = lg @ tr @ [c] \<and> \<not> list_ex adc_failed tr
                     \<and> (\<exists>ch. c = AdcSequenceInit ch err \<or> (\<exists>v. c = AdcRead ch err v)))
          | Inr (sx', sy') \<Rightarrow> (\<exists>ps. length ps = 8 - i \<and> list_all pair_ok ps
                     \<and> l2 = lg @ concat (map pair_calls ps)
                     \<and> sx' = sx + sum_list (map (\<lambda>p. scast (x_raw p)) ps)
                     \<and> sy' = sy + sum_list (map (\<lambda>p. scast (y_raw p)) ps))"
          by (auto intro!: exI [of _ "[AdcSequenceInit X_ADC ix, AdcRead X_ADC rrx rx, AdcSequenceInit Y_ADC iy]"])
      next
        assume "ey = 0" with True show "case Inl ey of
            Inl err \<Rightarrow> err < 0 \<and> (\<exists>tr c. l2 = lg @ tr @ [c] \<and> \<not> list_ex adc_failed tr
                     \<and> (\<exists>ch. c = AdcSequenceInit ch err \<or> (\<exists>v. c = AdcRead ch err v)))
          | Inr (sx', sy') \<Rightarrow> (\<exists>ps. length ps = 8 - i \<and> list_all pair_ok ps
                     \<and> l2 = lg @ concat (map pair_calls ps)
                     \<and> sx' = sx + sum_list (map (\<lambda>p. scast (x_raw p)) ps)
                     \<and> sy' = sy + sum_list (map (\<lambda>p. scast (y_raw p)) ps))"
          by simp
      qed
    next
      case yok: False
      with read_axis_cases [OF y] obtain iy rry where
        ly: "0 \<le> iy" "0 \<le> rry" "l2 = l1 @ [AdcSequenceInit Y_ADC iy, AdcRead Y_ADC rry ry]" by auto
      let ?p = "\<lparr>x_init = ix, x_rc = rrx, x_raw = rx, y_init = iy, y_rc = rry, y_raw = ry\<rparr>"
      have l2: "l2 @ [Sleep 2] = lg @ pair_calls ?p"
        using lx ly by (simp add: pair_calls_def)
      have pok: "pair_ok ?p" using lx ly by (simp add: pair_ok_def)
      from step xok yok Suc.prems have rec:
        "calibrate_loop e (i + 1) (sx + scast rx) (sy + scast ry) (l2 @ [Sleep 2]) = (res, lg')"
        by simp
      have n: "n = 8 - (i + 1)" "i + 1 \<le> 8" using Suc.hyps(2) i by simp_all
      note ih = Suc.hyps(1) [OF n(1) rec n(2)]
      show ?thesis
      proof (cases res)
        case (Inl err)
        with ih obtain tr c where t: "err < 0" "lg' = (l2 @ [Sleep 2]) @ tr @ [c]"
          "\<not> list_ex adc_failed tr" "\<exists>ch. c = AdcSequenceInit ch err \<or> (\<exists>v. c = AdcRead ch err v)"
          by auto
        have "lg' = lg @ (pair_calls ?p @ tr) @ [c]"
          using t(2) l2 by simp
        moreover have "\<not> list_ex adc_failed (pair_calls ?p @ tr)"
          using t(3) pok by (auto simp: pair_calls_def pair_ok_def list_ex_iff)
        ultimately show ?thesis
          using Inl t(1,4) by auto
      next
        case (Inr s)
        obtain sx' sy' where s: "s = (sx', sy')" by (cases s)
        with Inr ih obtain ps where p: "length ps = 8 - (i + 1)" "list_all pair_ok ps"
          "lg' = (l2 @ [Sleep 2]) @ concat (map pair_calls ps)"
          "sx' = sx + scast rx + sum_list (map (\<lambda>p. scast (x_raw p)) ps)"
          "sy' = sy + scast ry + sum_list (map (\<lambda>p. scast (y_raw p)) ps)"
          by auto
        have "length (?p # ps) = 8 - i" using p(1) i by simp
        moreover have "list_all pair_ok (?p # ps)" using p(2) pok by simp
        moreover have "lg' = lg @ concat (map pair_calls (?p # ps))"
          using p(3) l2 by simp
        moreover have "sx' = sx + sum_list (map (\<lambda>p. scast (x_raw p)) (?p # ps))"
          "sy' = sy + sum_list (map (\<lambda>p. scast (y_raw p)) (?p # ps))"
          using p(4,5) by (simp_all add: add.assoc)
        ultimately show ?thesis
          unfolding Inr s by (auto intro!: exI [of _ "?p # ps"])
      qed
    qed
  qed
qed

lemma sint16_bounds: "- 32768 \<le> sint (v :: 16 word) \<and> sint v < 32768"
  using sint_ge [of v] sint_lt [of v] by simp

lemma sint_in_range64:
  fixes k :: int
  assumes "- 9223372036854775808 \<le> k" "k < 9223372036854775808"
  shows "sint (word_of_int k :: 64 word) = k"
  using assms by (simp add: sint_sbintrunc' signed_take_bit_int_eq_self)

lemma sum_scast_sint:
  fixes f :: "'a \<Rightarrow> 16 word"
  shows "sum_list (map (\<lambda>p. scast (f p)) ps) = (word_of_int (\<Sum>p\<leftarrow>ps. sint (f p)) :: 64 word)"
proof (induction ps)
  case Nil
  show ?case by simp
next
  case (Cons p ps)
  have "(scast (f p) :: 64 word) = word_of_int (sint (f p))"
    by (rule scast_eq)
  with Cons show ?case by simp
qed

lemma sum_sint_bound:
  fixes f :: "'a \<Rightarrow> 16 word"
  shows "- 32768 * int (length ps) \<le> (\<Sum>p\<leftarrow>ps. sint (f p))
       \<and> (\<Sum>p\<leftarrow>ps. sint (f p)) \<le> 32768 * int (length ps)"
proof (induction ps)
  case Nil
  show ?case by simp
next
  case (Cons p ps)
  with sint16_bounds [of "f p"] show ?case by (simp add: algebra_simps)
qed

lemma center_of_sum:
  fixes f :: "'a \<Rightarrow> 16 word"
  assumes "length ps = 8"
  shows "sint (ucast (c_sdiv (sum_list (map (\<lambda>p. scast (f p)) ps) :: 64 word) 8) :: 32 word) =
           (\<Sum>p\<leftarrow>ps. sint (f p)) sdiv 8"
proof -
  let ?s = "\<Sum>p\<leftarrow>ps. sint (f p)"
  from sum_sint_bound [of ps f] assms have b: "- 262144 \<le> ?s" "?s \<le> 262144" by simp_all
  then have s: "sint (word_of_int ?s :: 64 word) = ?s"
    by (intro sint_in_range64) linarith+
  from sdiv_pos_bounds [of 8 ?s] b have q: "- 262144 \<le> ?s sdiv 8" "?s sdiv 8 \<le> 262144"
    by (cases "0 \<le> ?s"; linarith)+
  have c: "c_sdiv (sum_list (map (\<lambda>p. scast (f p)) ps) :: 64 word) 8 = word_of_int (?s sdiv 8)"
    unfolding c_sdiv_def sum_scast_sint s by simp
  have q64: "sint (word_of_int (?s sdiv 8) :: 64 word) = ?s sdiv 8"
    by (rule sint_in_range64) (use q in linarith)+
  have "(ucast (word_of_int (?s sdiv 8) :: 64 word) :: 32 word) = scast (word_of_int (?s sdiv 8) :: 64 word)"
    by (rule fun_cong [OF down_cast_same]) (simp add: is_down)
  also have "\<dots> = word_of_int (sint (word_of_int (?s sdiv 8) :: 64 word))"
    by (rule scast_eq)
  finally have u: "(ucast (word_of_int (?s sdiv 8) :: 64 word) :: 32 word) = word_of_int (?s sdiv 8)"
    by (simp only: q64)
  have "sint (word_of_int (?s sdiv 8) :: 32 word) = ?s sdiv 8"
    by (rule sint_in_range32) (use q in linarith)+
  then show ?thesis by (simp only: c u)
qed

lemma calibrate_example:
  "joystick_calibrate
      (adc_env [(0, 10), (0, 12), (0, 8), (0, 14), (0, 9), (0, 11), (0, 13), (0, 7)] [])
      \<lparr>dev = None, center_x = 0, center_y = 0\<rparr> [] =
   ((0, \<lparr>dev = None, center_x = 10, center_y = 0\<rparr>),
    concat (map (\<lambda>v. [AdcSequenceInit X_ADC 0, AdcRead X_ADC 0 v,
                        AdcSequenceInit Y_ADC 0, AdcRead Y_ADC 0 0, Sleep 2])
      [10, 12, 8, 14, 9, 11, 13, 7]))"
  by (simp add: joystick_calibrate_def calibrate_loop.simps joystick_read_axis_def adc_env_def
      count_reads_def Let_def c_sdiv_def signed_divide_int_def)

lemma ucast_minus_1_64_32: "(ucast (- 1 :: 64 word) :: 32 word) = - 1"
  by (rule bit_word_eqI) (simp add: bit_simps)

lemma calibrate_example_negative:
  "joystick_calibrate
      (adc_env [(0, - 2), (0, - 1), (0, - 1), (0, - 1), (0, - 1), (0, - 1), (0, - 1), (0, - 1)] [])
      \<lparr>dev = None, center_x = 0, center_y = 0\<rparr> [] =
   ((0, \<lparr>dev = None, center_x = - 1, center_y = 0\<rparr>),
    concat (map (\<lambda>v. [AdcSequenceInit X_ADC 0, AdcRead X_ADC 0 v,
                        AdcSequenceInit Y_ADC 0, AdcRead Y_ADC 0 0, Sleep 2])
      [- 2, - 1, - 1, - 1, - 1, - 1, - 1, - 1]))"
  by (simp add: joystick_calibrate_def calibrate_loop.simps joystick_read_axis_def adc_env_def
      count_reads_def Let_def c_sdiv_def signed_divide_int_def ucast_minus_1_64_32)

lemma calibrate_example_fail:
  "joystick_calibrate (adc_env [(0, 10), (0, 12), (- 5, 99)] [])
      \<lparr>dev = None, center_x = 77, center_y = 88\<rparr> [] =
   ((- 5, \<lparr>dev = None, center_x = 77, center_y = 88\<rparr>),
    [AdcSequenceInit X_ADC 0, AdcRead X_ADC 0 10, AdcSequenceInit Y_ADC 0, AdcRead Y_ADC 0 0, Sleep 2,
     AdcSequenceInit X_ADC 0, AdcRead X_ADC 0 12, AdcSequenceInit Y_ADC 0, AdcRead Y_ADC 0 0, Sleep 2,
     AdcSequenceInit X_ADC 0, AdcRead X_ADC (- 5) 99])"
  by (simp add: joystick_calibrate_def calibrate_loop.simps joystick_read_axis_def adc_env_def
      count_reads_def Let_def c_sdiv_def signed_divide_int_def)

lemma read_axis_outcome:
  assumes "joystick_read_axis e ch out lg = ((err, v), lg')"
  shows "\<exists>tr. lg' = lg @ tr \<and> honest_log e lg tr \<and>
     ((err < 0 \<and> v = out \<and> tr = [AdcSequenceInit ch err])
      \<or> (err < 0 \<and> v = out \<and> (\<exists>i b. 0 \<le> i \<and> tr = [AdcSequenceInit ch i, AdcRead ch err b]))
      \<or> (err = 0 \<and> (\<exists>i r. 0 \<le> i \<and> 0 \<le> r \<and> tr = [AdcSequenceInit ch i, AdcRead ch r v])))"
  using assms
  by (auto simp: joystick_read_axis_def Let_def split: if_splits prod.splits)

lemma calibrate_loop_rounds:
  assumes "calibrate_loop e i sx sy lg = (res, lg')" and "i \<le> 8"
  shows "\<exists>tr. lg' = lg @ tr \<and> honest_log e lg tr \<and>
     (case res of
        Inl err \<Rightarrow> (\<exists>ps part. length ps < 8 - i \<and> list_all pair_ok ps
                     \<and> tr = concat (map pair_calls ps) @ part \<and> failed_round err part)
      | Inr s \<Rightarrow> (\<exists>ps. length ps = 8 - i \<and> list_all pair_ok ps
                     \<and> tr = concat (map pair_calls ps)
                     \<and> fst s = sx + sum_list (map (\<lambda>p. scast (x_raw p)) ps)
                     \<and> snd s = sy + sum_list (map (\<lambda>p. scast (y_raw p)) ps)))"
  using assms
proof (induction "8 - i" arbitrary: i sx sy lg)
  case 0
  then have "\<not> i < 8" by simp
  from calibrate_loop_done [OF this] 0 show ?case
    by (intro exI [of _ "[]"]) auto
next
  case (Suc n)
  then have i: "i < 8" by simp
  obtain ex rx l1 where x: "joystick_read_axis e X_ADC 0 lg = ((ex, rx), l1)"
    by (metis prod.exhaust)
  obtain ey ry l2 where y: "joystick_read_axis e Y_ADC 0 l1 = ((ey, ry), l2)"
    by (metis prod.exhaust)
  note step = calibrate_loop_step [OF i x y, of sx sy]
  from read_axis_outcome [OF x] obtain tx where tx: "l1 = lg @ tx" "honest_log e lg tx"
    "(ex < 0 \<and> tx = [AdcSequenceInit X_ADC ex])
      \<or> (ex < 0 \<and> (\<exists>i b. 0 \<le> i \<and> tx = [AdcSequenceInit X_ADC i, AdcRead X_ADC ex b]))
      \<or> (ex = 0 \<and> (\<exists>i r. 0 \<le> i \<and> 0 \<le> r \<and> tx = [AdcSequenceInit X_ADC i, AdcRead X_ADC r rx]))"
    by blast
  show ?case
  proof (cases "ex < 0")
    case True
    with step Suc.prems have r: "res = Inl ex" "lg' = l1" by simp_all
    from tx(3) True have "failed_round ex tx"
      by (auto simp: failed_round_def)
    then have "\<exists>ps part. length ps < 8 - i \<and> list_all pair_ok ps
                     \<and> tx = concat (map pair_calls ps) @ part \<and> failed_round ex part"
      using i by (intro exI [of _ "[]"] exI [of _ tx]) simp
    with tx(1,2) show ?thesis
      unfolding r by (intro exI [of _ tx]) simp
  next
    case xok: False
    with tx(3) obtain ix rrx where
      lx: "0 \<le> ix" "0 \<le> rrx" "tx = [AdcSequenceInit X_ADC ix, AdcRead X_ADC rrx rx]" by auto
    from read_axis_outcome [OF y] obtain ty where ty: "l2 = l1 @ ty" "honest_log e l1 ty"
      "(ey < 0 \<and> ty = [AdcSequenceInit Y_ADC ey])
        \<or> (ey < 0 \<and> (\<exists>i b. 0 \<le> i \<and> ty = [AdcSequenceInit Y_ADC i, AdcRead Y_ADC ey b]))
        \<or> (ey = 0 \<and> (\<exists>i r. 0 \<le> i \<and> 0 \<le> r \<and> ty = [AdcSequenceInit Y_ADC i, AdcRead Y_ADC r ry]))"
      by blast
    have hxy: "honest_log e lg (tx @ ty)"
      using tx(1,2) ty(2) by (simp add: honest_log_append)
    show ?thesis
    proof (cases "ey < 0")
      case True
      with step xok Suc.prems have r: "res = Inl ey" "lg' = l2" by simp_all
      from ty(3) True lx have "failed_round ey (tx @ ty)"
        by (auto simp: failed_round_def)
      then have "\<exists>ps part. length ps < 8 - i \<and> list_all pair_ok ps
                     \<and> tx @ ty = concat (map pair_calls ps) @ part \<and> failed_round ey part"
        using i by (intro exI [of _ "[]"] exI [of _ "tx @ ty"]) simp
      moreover have "lg' = lg @ tx @ ty" using r(2) tx(1) ty(1) by simp
      ultimately show ?thesis
        using hxy unfolding r(1) by (intro exI [of _ "tx @ ty"]) simp
    next
      case yok: False
      with ty(3) obtain iy rry where
        ly: "0 \<le> iy" "0 \<le> rry" "ty = [AdcSequenceInit Y_ADC iy, AdcRead Y_ADC rry ry]" by auto
      let ?p = "\<lparr>x_init = ix, x_rc = rrx, x_raw = rx, y_init = iy, y_rc = rry, y_raw = ry\<rparr>"
      have pc: "tx @ ty @ [Sleep 2] = pair_calls ?p"
        using lx ly by (simp add: pair_calls_def)
      have l2: "l2 @ [Sleep 2] = lg @ pair_calls ?p"
        using tx(1) ty(1) pc by simp
      have hp: "honest_log e lg (pair_calls ?p)"
        using hxy pc [symmetric] by (simp add: honest_log_append)
      have pok: "pair_ok ?p" using lx ly by (simp add: pair_ok_def)
      from step xok yok Suc.prems have rec:
        "calibrate_loop e (i + 1) (sx + scast rx) (sy + scast ry) (l2 @ [Sleep 2]) = (res, lg')"
        by simp
      have n: "n = 8 - (i + 1)" "i + 1 \<le> 8" using Suc.hyps(2) i by simp_all
      from Suc.hyps(1) [OF n(1) rec n(2)] obtain tr where tr:
        "lg' = (l2 @ [Sleep 2]) @ tr" "honest_log e (l2 @ [Sleep 2]) tr"
        "case res of
           Inl err \<Rightarrow> (\<exists>ps part. length ps < 8 - (i + 1) \<and> list_all pair_ok ps
                     \<and> tr = concat (map pair_calls ps) @ part \<and> failed_round err part)
         | Inr s \<Rightarrow> (\<exists>ps. length ps = 8 - (i + 1) \<and> list_all pair_ok ps
                     \<and> tr = concat (map pair_calls ps)
                     \<and> fst s = sx + scast rx + sum_list (map (\<lambda>p. scast (x_raw p)) ps)
                     \<and> snd s = sy + scast ry + sum_list (map (\<lambda>p. scast (y_raw p)) ps))"
        by blast
      have eq: "lg' = lg @ pair_calls ?p @ tr" using tr(1) l2 by simp
      have hon: "honest_log e lg (pair_calls ?p @ tr)"
        using hp tr(2) l2 by (simp add: honest_log_append)
      show ?thesis
      proof (cases res)
        case (Inl err)
        with tr(3) obtain ps part where p: "length ps < 8 - (i + 1)" "list_all pair_ok ps"
          "tr = concat (map pair_calls ps) @ part" "failed_round err part"
          by auto
        have "length (?p # ps) < 8 - i" using p(1) by simp
        moreover have "list_all pair_ok (?p # ps)" using p(2) pok by simp
        moreover have "pair_calls ?p @ tr = concat (map pair_calls (?p # ps)) @ part"
          using p(3) by simp
        ultimately have "\<exists>ps part. length ps < 8 - i \<and> list_all pair_ok ps
            \<and> pair_calls ?p @ tr = concat (map pair_calls ps) @ part \<and> failed_round err part"
          using p(4) by blast
        with eq hon show ?thesis
          unfolding Inl by (intro exI [of _ "pair_calls ?p @ tr"]) simp
      next
        case (Inr s)
        with tr(3) obtain ps where p: "length ps = 8 - (i + 1)" "list_all pair_ok ps"
          "tr = concat (map pair_calls ps)"
          "fst s = sx + scast rx + sum_list (map (\<lambda>p. scast (x_raw p)) ps)"
          "snd s = sy + scast ry + sum_list (map (\<lambda>p. scast (y_raw p)) ps)"
          by auto
        have "length (?p # ps) = 8 - i" using p(1) i by simp
        moreover have "list_all pair_ok (?p # ps)" using p(2) pok by simp
        moreover have "pair_calls ?p @ tr = concat (map pair_calls (?p # ps))"
          using p(3) by simp
        moreover have "fst s = sx + sum_list (map (\<lambda>p. scast (x_raw p)) (?p # ps))"
          "snd s = sy + sum_list (map (\<lambda>p. scast (y_raw p)) (?p # ps))"
          using p(4,5) by (simp_all add: add.assoc)
        ultimately have "\<exists>ps. length ps = 8 - i \<and> list_all pair_ok ps
            \<and> pair_calls ?p @ tr = concat (map pair_calls ps)
            \<and> fst s = sx + sum_list (map (\<lambda>p. scast (x_raw p)) ps)
            \<and> snd s = sy + sum_list (map (\<lambda>p. scast (y_raw p)) ps)"
          by (intro exI [of _ "?p # ps"]) simp
        with eq hon show ?thesis
          unfolding Inr by (intro exI [of _ "pair_calls ?p @ tr"]) simp
      qed
    qed
  qed
qed

lemma calibrate_honest:
  assumes "joystick_calibrate e data lg = ((ret, data'), lg')"
  shows "(ret = 0 \<longrightarrow> (\<exists>ps. length ps = 8 \<and> list_all pair_ok ps
            \<and> lg' = lg @ concat (map pair_calls ps)
            \<and> honest_log e lg (concat (map pair_calls ps))
            \<and> sint (center_x data') = (\<Sum>p\<leftarrow>ps. sint (x_raw p)) sdiv 8
            \<and> sint (center_y data') = (\<Sum>p\<leftarrow>ps. sint (y_raw p)) sdiv 8
            \<and> joystick_data.dev data' = joystick_data.dev data))
       \<and> (ret \<noteq> 0 \<longrightarrow> (\<exists>ps part. length ps < 8 \<and> list_all pair_ok ps
            \<and> lg' = lg @ concat (map pair_calls ps) @ part
            \<and> honest_log e lg (concat (map pair_calls ps) @ part)
            \<and> failed_round ret part))"
proof -
  obtain res l where loop: "calibrate_loop e 0 0 0 lg = (res, l)"
    by (metis prod.exhaust)
  from calibrate_loop_rounds [OF loop] obtain tr where tr: "l = lg @ tr" "honest_log e lg tr"
    "case res of
        Inl err \<Rightarrow> (\<exists>ps part. length ps < 8 - 0 \<and> list_all pair_ok ps
                     \<and> tr = concat (map pair_calls ps) @ part \<and> failed_round err part)
      | Inr s \<Rightarrow> (\<exists>ps. length ps = 8 - 0 \<and> list_all pair_ok ps
                     \<and> tr = concat (map pair_calls ps)
                     \<and> fst s = 0 + sum_list (map (\<lambda>p. scast (x_raw p)) ps)
                     \<and> snd s = 0 + sum_list (map (\<lambda>p. scast (y_raw p)) ps))"
    by auto
  show ?thesis
  proof (cases res)
    case (Inl err)
    with assms loop have r: "ret = err" "data' = data" "lg' = l"
      by (simp_all add: joystick_calibrate_def)
    from tr(3) Inl obtain ps part where p: "length ps < 8" "list_all pair_ok ps"
      "tr = concat (map pair_calls ps) @ part" "failed_round err part"
      by auto
    from p(4) have "err < 0" by (simp add: failed_round_def)
    then have "ret \<noteq> 0" using r(1) by simp
    moreover have "\<exists>ps part. length ps < 8 \<and> list_all pair_ok ps
            \<and> lg' = lg @ concat (map pair_calls ps) @ part
            \<and> honest_log e lg (concat (map pair_calls ps) @ part)
            \<and> failed_round ret part"
      using p tr(1,2) r by (intro exI [of _ ps] exI [of _ part]) simp
    ultimately show ?thesis by simp
  next
    case (Inr s)
    obtain sx sy where s: "s = (sx, sy)" by (cases s)
    with Inr assms loop have r: "ret = 0" "lg' = l"
      "data' = data\<lparr>center_x := ucast (c_sdiv sx 8), center_y := ucast (c_sdiv sy 8)\<rparr>"
      by (simp_all add: joystick_calibrate_def)
    from tr(3) Inr s obtain ps where p: "length ps = 8" "list_all pair_ok ps"
      "tr = concat (map pair_calls ps)"
      "sx = sum_list (map (\<lambda>p. scast (x_raw p)) ps)"
      "sy = sum_list (map (\<lambda>p. scast (y_raw p)) ps)"
      by auto
    have c: "sint (center_x data') = (\<Sum>p\<leftarrow>ps. sint (x_raw p)) sdiv 8"
      "sint (center_y data') = (\<Sum>p\<leftarrow>ps. sint (y_raw p)) sdiv 8"
      unfolding r p(4,5) using center_of_sum [OF p(1)] by simp_all
    have "\<exists>ps. length ps = 8 \<and> list_all pair_ok ps
            \<and> lg' = lg @ concat (map pair_calls ps)
            \<and> honest_log e lg (concat (map pair_calls ps))
            \<and> sint (center_x data') = (\<Sum>p\<leftarrow>ps. sint (x_raw p)) sdiv 8
            \<and> sint (center_y data') = (\<Sum>p\<leftarrow>ps. sint (y_raw p)) sdiv 8
            \<and> joystick_data.dev data' = joystick_data.dev data"
      using p(1,2,3) tr(1,2) r c by (intro exI [of _ ps]) simp
    with r(1) show ?thesis by simp
  qed
qed

lemma calibrate_example_both:
  "joystick_calibrate
      (adc_env [(0, 10), (0, 12), (0, 8), (0, 14), (0, 9), (0, 11), (0, 13), (0, 7)]
               [(0, 800), (0, 802), (0, 798), (0, 804), (0, 799), (0, 801), (0, 803), (0, 797)])
      \<lparr>dev = None, center_x = 0, center_y = 0\<rparr> [] =
   ((0, \<lparr>dev = None, center_x = 10, center_y = 800\<rparr>),
    concat (map (\<lambda>(x, y). [AdcSequenceInit X_ADC 0, AdcRead X_ADC 0 x,
                             AdcSequenceInit Y_ADC 0, AdcRead Y_ADC 0 y, Sleep 2])
      [(10, 800), (12, 802), (8, 798), (14, 804), (9, 799), (11, 801), (13, 803), (7, 797)]))"
  by (simp add: joystick_calibrate_def calibrate_loop.simps joystick_read_axis_def adc_env_def
      count_reads_def Let_def c_sdiv_def signed_divide_int_def)

lemma calibrate_cases:
  assumes "joystick_calibrate e data lg = ((ret, data'), lg')"
  shows "(ret = 0 \<longrightarrow> (\<exists>ps. length ps = 8 \<and> list_all pair_ok ps
            \<and> lg' = lg @ concat (map pair_calls ps)
            \<and> sint (center_x data') = (\<Sum>p\<leftarrow>ps. sint (x_raw p)) sdiv 8
            \<and> sint (center_y data') = (\<Sum>p\<leftarrow>ps. sint (y_raw p)) sdiv 8
            \<and> joystick_data.dev data' = joystick_data.dev data))
       \<and> (ret \<noteq> 0 \<longrightarrow> ret < 0 \<and> data' = data
            \<and> (\<exists>tr c. lg' = lg @ tr @ [c] \<and> \<not> list_ex adc_failed tr
                  \<and> (\<exists>ch. c = AdcSequenceInit ch ret \<or> (\<exists>v. c = AdcRead ch ret v))))"
proof -
  obtain res l where loop: "calibrate_loop e 0 0 0 lg = (res, l)"
    by (metis prod.exhaust)
  note sp = calibrate_loop_spec [OF loop]
  show ?thesis
  proof (cases res)
    case (Inl err)
    with assms loop have r: "ret = err" "data' = data" "lg' = l"
      by (simp_all add: joystick_calibrate_def)
    from sp Inl show ?thesis unfolding r by auto
  next
    case (Inr s)
    obtain sx sy where s: "s = (sx, sy)" by (cases s)
    with Inr assms loop have r: "ret = 0" "lg' = l"
      "data' = data\<lparr>center_x := ucast (c_sdiv sx 8), center_y := ucast (c_sdiv sy 8)\<rparr>"
      by (simp_all add: joystick_calibrate_def)
    from sp Inr s obtain ps where p: "length ps = 8" "list_all pair_ok ps"
      "l = lg @ concat (map pair_calls ps)"
      "sx = sum_list (map (\<lambda>p. scast (x_raw p)) ps)"
      "sy = sum_list (map (\<lambda>p. scast (y_raw p)) ps)"
      by auto
    have "sint (center_x data') = (\<Sum>p\<leftarrow>ps. sint (x_raw p)) sdiv 8"
      "sint (center_y data') = (\<Sum>p\<leftarrow>ps. sint (y_raw p)) sdiv 8"
      unfolding r p(4,5) using center_of_sum [OF p(1)] by simp_all
    with p r show ?thesis by auto
  qed
qed

text \<open>
  A calibrated center is within the range of the samples, so the difference of any
  sample and a calibrated center is a centered value that \<^verbatim>\<open>int32_t\<close> holds with room.
\<close>

lemma mean_bounds:
  fixes f :: "'a \<Rightarrow> 16 word"
  assumes "length ps = 8"
  shows "- 32768 \<le> (\<Sum>p\<leftarrow>ps. sint (f p)) sdiv 8 \<and> (\<Sum>p\<leftarrow>ps. sint (f p)) sdiv 8 \<le> 32768"
proof -
  let ?s = "\<Sum>p\<leftarrow>ps. sint (f p)"
  from sum_sint_bound [of ps f] assms have b: "- 262144 \<le> ?s" "?s \<le> 262144" by simp_all
  have a: "\<bar>?s\<bar> div 8 \<le> 32768" using b by linarith
  have e: "?s sdiv 8 = sgn ?s * (\<bar>?s\<bar> div 8)"
    by (simp add: signed_divide_int_def)
  have "0 \<le> \<bar>?s\<bar> div 8" by (simp add: pos_imp_zdiv_nonneg_iff)
  with a e show ?thesis
    by (cases "0 \<le> ?s"; cases "?s = 0") (simp_all add: sgn_if)
qed

lemma calibrated_center_range:
  assumes "joystick_calibrate e data lg = ((0, data'), lg')"
  shows "- 32768 \<le> sint (center_x data') \<and> sint (center_x data') \<le> 32768
       \<and> - 32768 \<le> sint (center_y data') \<and> sint (center_y data') \<le> 32768"
proof -
  from calibrate_cases [OF assms] have "\<exists>ps. length ps = 8 \<and> list_all pair_ok ps
      \<and> lg' = lg @ concat (map pair_calls ps)
      \<and> sint (center_x data') = (\<Sum>p\<leftarrow>ps. sint (x_raw p)) sdiv 8
      \<and> sint (center_y data') = (\<Sum>p\<leftarrow>ps. sint (y_raw p)) sdiv 8
      \<and> joystick_data.dev data' = joystick_data.dev data"
    by simp
  then obtain ps where "length ps = 8 \<and> list_all pair_ok ps
      \<and> lg' = lg @ concat (map pair_calls ps)
      \<and> sint (center_x data') = (\<Sum>p\<leftarrow>ps. sint (x_raw p)) sdiv 8
      \<and> sint (center_y data') = (\<Sum>p\<leftarrow>ps. sint (y_raw p)) sdiv 8
      \<and> joystick_data.dev data' = joystick_data.dev data" ..
  then have p: "length ps = 8"
    "sint (center_x data') = (\<Sum>p\<leftarrow>ps. sint (x_raw p)) sdiv 8"
    "sint (center_y data') = (\<Sum>p\<leftarrow>ps. sint (y_raw p)) sdiv 8"
    by simp_all
  from mean_bounds [OF p(1), of x_raw] mean_bounds [OF p(1), of y_raw] show ?thesis
    unfolding p(2,3) by simp
qed

lemma centered_value_fits:
  fixes raw :: "16 word" and center :: "32 word"
  assumes "- 32768 \<le> sint center" "sint center \<le> 32768"
  shows "- 2147483648 < sint raw - sint center \<and> sint raw - sint center < 2147483648"
  using assms sint16_bounds [of raw] by linarith

text \<open>
  C7. When \<^verbatim>\<open>joystick_calibrate\<close> returns 0, the log is exactly eight rounds, each the
  x sample, the y sample and the delay of 2, with no failed call and with the samples the
  ADC gave, and each center is the sum of that axis's eight samples divided by 8 with
  truncation toward zero; the reads \<open>10, 12, 8, 14, 9, 11, 13, 7\<close> on x give the center
  10, and the reads \<open>800, 802, 798, 804, 799, 801, 803, 797\<close> on y give 800. Otherwise it
  returns the negative code of the first call that failed: the log is fewer than eight
  whole rounds and then the round that failed, which ends with that call, and the instance
  data is what it was.
\<close>
theorem calibrate_spec:
  assumes "joystick_calibrate e data lg = ((ret, data'), lg')"
  shows "(ret = 0 \<longrightarrow> (\<exists>ps. length ps = 8 \<and> list_all pair_ok ps
            \<and> lg' = lg @ concat (map pair_calls ps)
            \<and> honest_log e lg (concat (map pair_calls ps))
            \<and> sint (center_x data') = (\<Sum>p\<leftarrow>ps. sint (x_raw p)) sdiv 8
            \<and> sint (center_y data') = (\<Sum>p\<leftarrow>ps. sint (y_raw p)) sdiv 8
            \<and> joystick_data.dev data' = joystick_data.dev data))
       \<and> (ret \<noteq> 0 \<longrightarrow> ret < 0 \<and> data' = data
            \<and> (\<exists>tr c. lg' = lg @ tr @ [c] \<and> \<not> list_ex adc_failed tr
                  \<and> (\<exists>ch. c = AdcSequenceInit ch ret \<or> (\<exists>v. c = AdcRead ch ret v))))
       \<and> (ret \<noteq> 0 \<longrightarrow> (\<exists>ps part. length ps < 8 \<and> list_all pair_ok ps
            \<and> lg' = lg @ concat (map pair_calls ps) @ part
            \<and> honest_log e lg (concat (map pair_calls ps) @ part)
            \<and> failed_round ret part))
       \<and> fst (joystick_calibrate
            (adc_env [(0, 10), (0, 12), (0, 8), (0, 14), (0, 9), (0, 11), (0, 13), (0, 7)] [])
            \<lparr>dev = None, center_x = 0, center_y = 0\<rparr> []) =
          (0, \<lparr>dev = None, center_x = 10, center_y = 0\<rparr>)
       \<and> (10 + 12 + 8 + 14 + 9 + 11 + 13 + 7 :: int) = 84 \<and> (84 :: int) sdiv 8 = 10
       \<and> fst (joystick_calibrate
            (adc_env [(0, 10), (0, 12), (0, 8), (0, 14), (0, 9), (0, 11), (0, 13), (0, 7)]
               [(0, 800), (0, 802), (0, 798), (0, 804), (0, 799), (0, 801), (0, 803), (0, 797)])
            \<lparr>dev = None, center_x = 0, center_y = 0\<rparr> []) =
          (0, \<lparr>dev = None, center_x = 10, center_y = 800\<rparr>)"
proof -
  note old = calibrate_cases [OF assms]
  note new = calibrate_honest [OF assms]
  have ex: "fst (joystick_calibrate
            (adc_env [(0, 10), (0, 12), (0, 8), (0, 14), (0, 9), (0, 11), (0, 13), (0, 7)] [])
            \<lparr>dev = None, center_x = 0, center_y = 0\<rparr> []) =
          (0, \<lparr>dev = None, center_x = 10, center_y = 0\<rparr>)"
    by (simp add: calibrate_example)
  have ex2: "fst (joystick_calibrate
            (adc_env [(0, 10), (0, 12), (0, 8), (0, 14), (0, 9), (0, 11), (0, 13), (0, 7)]
               [(0, 800), (0, 802), (0, 798), (0, 804), (0, 799), (0, 801), (0, 803), (0, 797)])
            \<lparr>dev = None, center_x = 0, center_y = 0\<rparr> []) =
          (0, \<lparr>dev = None, center_x = 10, center_y = 800\<rparr>)"
    by (simp add: calibrate_example_both)
  have ar: "(10 + 12 + 8 + 14 + 9 + 11 + 13 + 7 :: int) = 84" "(84 :: int) sdiv 8 = 10"
    by (simp_all add: signed_divide_int_def)
  show ?thesis
    apply (intro conjI)
         apply (rule new [THEN conjunct1])
        apply (rule old [THEN conjunct2])
       apply (rule new [THEN conjunct2])
      apply (rule ex)
     apply (rule ar(1))
    apply (rule ar(2))
    apply (rule ex2)
    done
qed

theorem calibrate_spec_witness:
  "joystick_calibrate (adc_env [(0, 10), (0, 12), (- 5, 99)] [(0, 800), (0, 802)])
      \<lparr>dev = None, center_x = 77, center_y = 88\<rparr> [] =
   ((- 5, \<lparr>dev = None, center_x = 77, center_y = 88\<rparr>),
    [AdcSequenceInit X_ADC 0, AdcRead X_ADC 0 10, AdcSequenceInit Y_ADC 0, AdcRead Y_ADC 0 800, Sleep 2,
     AdcSequenceInit X_ADC 0, AdcRead X_ADC 0 12, AdcSequenceInit Y_ADC 0, AdcRead Y_ADC 0 802, Sleep 2,
     AdcSequenceInit X_ADC 0, AdcRead X_ADC (- 5) 99])
   \<and> (- 5 :: int) \<noteq> 0 \<and> (- 5 :: int) < 0
   \<and> joystick_calibrate
        (adc_env [(0, 10), (0, 12), (0, 8), (0, 14), (0, 9), (0, 11), (0, 13), (0, 7)]
           [(0, 800), (0, 802), (0, 798), (0, 804), (0, 799), (0, 801), (0, 803), (0, 797)])
        \<lparr>dev = None, center_x = 0, center_y = 0\<rparr> [] =
      ((0, \<lparr>dev = None, center_x = 10, center_y = 800\<rparr>),
       concat (map (\<lambda>(x, y). [AdcSequenceInit X_ADC 0, AdcRead X_ADC 0 x,
                                AdcSequenceInit Y_ADC 0, AdcRead Y_ADC 0 y, Sleep 2])
         [(10, 800), (12, 802), (8, 798), (14, 804), (9, 799), (11, 801), (13, 803), (7, 797)]))
   \<and> fst (joystick_calibrate
        (adc_env [(0, - 2), (0, - 1), (0, - 1), (0, - 1), (0, - 1), (0, - 1), (0, - 1), (0, - 1)] [])
        \<lparr>dev = None, center_x = 0, center_y = 0\<rparr> []) =
      (0, \<lparr>dev = None, center_x = - 1, center_y = 0\<rparr>)"
proof -
  have fail: "joystick_calibrate (adc_env [(0, 10), (0, 12), (- 5, 99)] [(0, 800), (0, 802)])
      \<lparr>dev = None, center_x = 77, center_y = 88\<rparr> [] =
   ((- 5, \<lparr>dev = None, center_x = 77, center_y = 88\<rparr>),
    [AdcSequenceInit X_ADC 0, AdcRead X_ADC 0 10, AdcSequenceInit Y_ADC 0, AdcRead Y_ADC 0 800, Sleep 2,
     AdcSequenceInit X_ADC 0, AdcRead X_ADC 0 12, AdcSequenceInit Y_ADC 0, AdcRead Y_ADC 0 802, Sleep 2,
     AdcSequenceInit X_ADC 0, AdcRead X_ADC (- 5) 99])"
    by (simp add: joystick_calibrate_def calibrate_loop.simps joystick_read_axis_def adc_env_def
        count_reads_def Let_def c_sdiv_def signed_divide_int_def)
  from calibrate_spec [OF fail] have "(- 5 :: int) < 0"
    by simp
  moreover from calibrate_spec [OF calibrate_example_both]
  have "sint (center_y \<lparr>dev = None, center_x = 10, center_y = 800 :: 32 word\<rparr>) = 800"
    by simp
  ultimately show ?thesis
    using fail calibrate_example_both calibrate_example_negative by simp
qed

end
